theory Spec2Isabelle
  imports Main
begin

section \<open>Values\<close>

text \<open>
  The value \<open>json.loads\<close> returns for a document: \<open>None\<close>, a \<open>bool\<close>, an \<open>int\<close>, a
  \<open>str\<close>, a \<open>list\<close> or a \<open>dict\<close> with \<open>str\<close> keys, in the order of the document
  (the keys of a \<open>dict\<close> are distinct: of a key written twice, \<open>json.loads\<close> keeps one).
  Scope of the model: a JSON number is a Python \<open>int\<close> (a document with a fraction or an
  exponent, which \<open>json.loads\<close> reads as a \<open>float\<close>, is not covered), and a character of a
  string is a code point below 256.
\<close>

datatype json =
    JNull
  | JBool bool
  | JNum int
  | JStr string
  | JArr "json list"
  | JObj "(string \<times> json) list"

text \<open>The exceptions the program can raise on the inputs the model covers.\<close>

datatype error =
  JSONDecodeError | TypeError | KeyError | FileNotFoundError | IsADirectoryError

text \<open>
  The hashable values that can be the key of a \<open>dict\<close> here. A list or a dict is not
  hashable: using one as a key raises \<open>TypeError\<close>.
\<close>

datatype pykey = KNone | KBool bool | KInt int | KStr string

fun as_key :: "json \<Rightarrow> pykey option" where
  "as_key JNull = Some KNone"
| "as_key (JBool b) = Some (KBool b)"
| "as_key (JNum i) = Some (KInt i)"
| "as_key (JStr s) = Some (KStr s)"
| "as_key (JArr xs) = None"
| "as_key (JObj kvs) = None"

text \<open>
  Key equality of a Python \<open>dict\<close>: \<open>True == 1\<close> and \<open>False == 0\<close> (with equal hashes),
  every other pair of keys of different types differs.
\<close>

fun key_norm :: "pykey \<Rightarrow> pykey" where
  "key_norm (KBool b) = KInt (if b then 1 else 0)"
| "key_norm k = k"

definition py_eq :: "pykey \<Rightarrow> pykey \<Rightarrow> bool" where
  "py_eq a b = (key_norm a = key_norm b)"

section \<open>Dictionaries\<close>

text \<open>
  A Python \<open>dict\<close> keeps its items in insertion order, and the order is observable in the
  output, so a dictionary is an association list in insertion order. \<open>d.get(k, default)\<close>
  is \<open>dict_get\<close>; \<open>d[k] = v\<close> is \<open>dict_set\<close>: an existing key keeps its place (and the key
  object first inserted), a new key goes to the end.
\<close>

type_synonym 'v dict = "(pykey \<times> 'v) list"

fun dict_lookup :: "'v dict \<Rightarrow> pykey \<Rightarrow> 'v option" where
  "dict_lookup [] k = None"
| "dict_lookup ((k', v) # d) k = (if py_eq k' k then Some v else dict_lookup d k)"

definition dict_get :: "'v dict \<Rightarrow> pykey \<Rightarrow> 'v \<Rightarrow> 'v" where
  "dict_get d k dflt = (case dict_lookup d k of None \<Rightarrow> dflt | Some v \<Rightarrow> v)"

fun dict_set :: "'v dict \<Rightarrow> pykey \<Rightarrow> 'v \<Rightarrow> 'v dict" where
  "dict_set [] k v = [(k, v)]"
| "dict_set ((k', v') # d) k v =
     (if py_eq k' k then (k', v) # d else (k', v') # dict_set d k v)"

section \<open>Entries\<close>

text \<open>
  \<open>Entry\<close> (parse.py, lines 19-23). The dataclass does not check its fields: at run time
  a field holds whatever non-null value the record had.
\<close>

record entry =
  artist_name :: json
  album_name :: json
  track_name :: json

text \<open>
  \<open>log_entry[key]\<close>: a dict without the key raises \<open>KeyError\<close>; a string, a list, a
  number, a boolean or \<open>None\<close> subscripted by a string raises \<open>TypeError\<close>.
\<close>

fun subscript :: "json \<Rightarrow> string \<Rightarrow> error + json" where
  "subscript (JObj kvs) key = (case map_of kvs key of None \<Rightarrow> Inl KeyError | Some v \<Rightarrow> Inr v)"
| "subscript j key = Inl TypeError"

text \<open>\<open>to_entry\<close> (lines 26-39): \<open>Inr None\<close> is the returned \<open>None\<close>.\<close>

definition to_entry :: "json \<Rightarrow> error + entry option" where
  "to_entry log_entry =
     (case subscript log_entry ''master_metadata_album_artist_name'' of
        Inl e \<Rightarrow> Inl e
      | Inr artist \<Rightarrow>
          if artist = JNull then Inr None
          else (case subscript log_entry ''master_metadata_album_album_name'' of
             Inl e \<Rightarrow> Inl e
           | Inr album \<Rightarrow>
               if album = JNull then Inr None
               else (case subscript log_entry ''master_metadata_track_name'' of
                  Inl e \<Rightarrow> Inl e
                | Inr track \<Rightarrow>
                    if track = JNull then Inr None
                    else Inr (Some \<lparr>artist_name = artist, album_name = album,
                                     track_name = track\<rparr>))))"

section \<open>Albums and artists\<close>

text \<open>\<open>Album\<close> (lines 42-52) and \<open>Artist\<close> (lines 55-65).\<close>

record album =
  tracks :: "int dict"
  total_listens :: int

record artist =
  albums :: "album dict"
  total_listens :: int

definition Album :: album where
  "Album = \<lparr>tracks = [], album.total_listens = 0\<rparr>"

definition Artist :: artist where
  "Artist = \<lparr>albums = [], artist.total_listens = 0\<rparr>"

text \<open>
  \<open>Album.update\<close>: \<open>self.tracks.get\<close> hashes the track name, so an unhashable name raises
  \<open>TypeError\<close>.
\<close>

definition Album_update :: "album \<Rightarrow> entry \<Rightarrow> error + album" where
  "Album_update self e =
     (case as_key (track_name e) of
        None \<Rightarrow> Inl TypeError
      | Some t \<Rightarrow>
          Inr \<lparr>tracks = dict_set (tracks self) t (dict_get (tracks self) t 0 + 1),
               album.total_listens = album.total_listens self + 1\<rparr>)"

definition Artist_update :: "artist \<Rightarrow> entry \<Rightarrow> error + artist" where
  "Artist_update self e =
     (case as_key (album_name e) of
        None \<Rightarrow> Inl TypeError
      | Some a \<Rightarrow>
          (case Album_update (dict_get (albums self) a Album) e of
             Inl err \<Rightarrow> Inl err
           | Inr al \<Rightarrow>
               Inr \<lparr>albums = dict_set (albums self) a al,
                    artist.total_listens = artist.total_listens self + 1\<rparr>))"

section \<open>The catalog and the ingestion loop\<close>

type_synonym catalog = "artist dict"

text \<open>Lines 100-102: the body of the loop for one entry.\<close>

definition add_entry :: "catalog \<Rightarrow> entry \<Rightarrow> error + catalog" where
  "add_entry data e =
     (case as_key (artist_name e) of
        None \<Rightarrow> Inl TypeError
      | Some a \<Rightarrow>
          (case Artist_update (dict_get data a Artist) e of
             Inl err \<Rightarrow> Inl err
           | Inr ar \<Rightarrow> Inr (dict_set data a ar)))"

text \<open>Lines 95-102: the loop over the elements of the document.\<close>

fun process_logs :: "catalog \<Rightarrow> json list \<Rightarrow> error + catalog" where
  "process_logs data [] = Inr data"
| "process_logs data (log # rest) =
     (case to_entry log of
        Inl e \<Rightarrow> Inl e
      | Inr None \<Rightarrow> process_logs data rest
      | Inr (Some e) \<Rightarrow>
          (case add_entry data e of
             Inl err \<Rightarrow> Inl err
           | Inr data' \<Rightarrow> process_logs data' rest))"

text \<open>
  \<open>list(x)\<close> (line 92): a list is copied, a dict gives its keys, a string its characters,
  and \<open>None\<close>, a boolean or a number is not iterable.
\<close>

fun py_list :: "json \<Rightarrow> error + json list" where
  "py_list (JArr xs) = Inr xs"
| "py_list (JObj kvs) = Inr (map (\<lambda>kv. JStr (fst kv)) kvs)"
| "py_list (JStr s) = Inr (map (\<lambda>c. JStr [c]) s)"
| "py_list j = Inl TypeError"

section \<open>Text\<close>

text \<open>\<open>int.__repr__\<close>: the decimal digits, with a minus sign for a negative number.\<close>

definition digit_char :: "nat \<Rightarrow> char" where
  "digit_char n = ''0123456789abcdef'' ! n"

fun nat_repr :: "nat \<Rightarrow> string" where
  "nat_repr n = (if n < 10 then [digit_char n] else nat_repr (n div 10) @ [digit_char (n mod 10)])"

declare nat_repr.simps [simp del]

definition int_repr :: "int \<Rightarrow> string" where
  "int_repr i = (if i < 0 then CHR ''-'' # nat_repr (nat (- i)) else nat_repr (nat i))"

text \<open>\<open>s.ljust(width, " ")\<close>.\<close>

definition ljust :: "string \<Rightarrow> nat \<Rightarrow> string" where
  "ljust s width = s @ replicate (width - length s) CHR '' ''"

text \<open>
  \<open>json.dumps\<close> with \<open>ensure_ascii\<close> (the default) writes a string between double quotes:
  a printable ASCII character other than the quote and the backslash stands for itself,
  the quote, the backslash and five control characters have a short escape, and every
  other character is written \<open>\uXXXX\<close> in lower-case hexadecimal.
\<close>

definition escape_char :: "char \<Rightarrow> string" where
  "escape_char c =
     (let n = (of_char c :: nat) in
      if n = 0x22 then [CHR 0x5C, CHR 0x22]
      else if n = 0x5C then [CHR 0x5C, CHR 0x5C]
      else if 0x20 \<le> n \<and> n \<le> 0x7E then [c]
      else if n = 0x0A then [CHR 0x5C, CHR ''n'']
      else if n = 0x0D then [CHR 0x5C, CHR ''r'']
      else if n = 0x09 then [CHR 0x5C, CHR ''t'']
      else if n = 0x08 then [CHR 0x5C, CHR ''b'']
      else if n = 0x0C then [CHR 0x5C, CHR ''f'']
      else [CHR 0x5C, CHR ''u'', CHR ''0'', CHR ''0'', digit_char (n div 16), digit_char (n mod 16)])"

definition encode_string :: "string \<Rightarrow> string" where
  "encode_string s = [CHR 0x22] @ concat (map escape_char s) @ [CHR 0x22]"

text \<open>
  The key of a dict in \<open>json.dumps\<close>: a string as it is, \<open>True\<close>, \<open>False\<close> and \<open>None\<close> as
  \<open>true\<close>, \<open>false\<close> and \<open>null\<close>, an int in decimal; then encoded as a string.
\<close>

fun key_text :: "pykey \<Rightarrow> string" where
  "key_text (KStr s) = s"
| "key_text (KBool b) = (if b then ''true'' else ''false'')"
| "key_text KNone = ''null''"
| "key_text (KInt i) = int_repr i"

text \<open>The objects \<open>save\<close> hands to \<open>json.dumps\<close>: ints and dicts, nested.\<close>

datatype pyobj = PyInt int | PyDict "(pykey \<times> pyobj) list"

definition newline_indent :: "nat \<Rightarrow> string" where
  "newline_indent level = CHR 0x0A # replicate (4 * level) CHR '' ''"

fun join :: "string \<Rightarrow> string list \<Rightarrow> string" where
  "join sep [] = []"
| "join sep [x] = x"
| "join sep (x # y # ys) = x @ sep @ join sep (y # ys)"

text \<open>
  \<open>json.dumps(obj, indent=4)\<close>: an empty dict is \<open>{}\<close>; the items of another dict are
  written one per line, four more spaces in than the dict, separated by a comma, the key
  and the value separated by a colon and a space.
\<close>

fun dumps_at :: "nat \<Rightarrow> pyobj \<Rightarrow> string"
  and dumps_items :: "nat \<Rightarrow> (pykey \<times> pyobj) list \<Rightarrow> string list" where
  "dumps_at level (PyInt i) = int_repr i"
| "dumps_at level (PyDict items) =
     (if items = [] then ''{}''
      else ''{'' @ newline_indent (Suc level)
           @ join ('','' @ newline_indent (Suc level)) (dumps_items (Suc level) items)
           @ newline_indent level @ ''}'')"
| "dumps_items level [] = []"
| "dumps_items level (kv # rest) =
     (encode_string (key_text (fst kv)) @ '': '' @ dumps_at level (snd kv))
       # dumps_items level rest"

definition dumps :: "pyobj \<Rightarrow> string" where
  "dumps obj = dumps_at 0 obj"

text \<open>\<open>dataclasses.asdict\<close> of an album and of an artist: the fields in declaration order.\<close>

definition asdict_album :: "album \<Rightarrow> pyobj" where
  "asdict_album al =
     PyDict [(KStr ''tracks'', PyDict (map (\<lambda>kv. (fst kv, PyInt (snd kv))) (tracks al))),
             (KStr ''total_listens'', PyInt (album.total_listens al))]"

definition asdict :: "artist \<Rightarrow> pyobj" where
  "asdict ar =
     PyDict [(KStr ''albums'', PyDict (map (\<lambda>kv. (fst kv, asdict_album (snd kv))) (albums ar))),
             (KStr ''total_listens'', PyInt (artist.total_listens ar))]"

text \<open>
  \<open>sorted(xs, key=f, reverse=True)\<close>: CPython reverses the list, sorts it by ascending
  key with a stable sort, and reverses the result, which keeps items of equal key in
  their original order. The result of a stable sort does not depend on the algorithm,
  so the library's stable \<open>sort_key\<close> stands for it.
\<close>

definition sorted_reverse :: "('a \<Rightarrow> int) \<Rightarrow> 'a list \<Rightarrow> 'a list" where
  "sorted_reverse f xs = rev (sort_key f (rev xs))"

section \<open>Files, the parser and the program\<close>

text \<open>
  The part of the environment the program reads and writes. The text of a file is
  given by what \<open>json.loads\<close> makes of it: a document, or nothing (\<open>JSONDecodeError\<close>).
  \<open>data_dir\<close> lists the directory \<open>data\<close> in the order \<open>iterdir\<close> yields it (\<open>None\<close>: there is
  no \<open>data\<close>); a path that exists is taken to be of the expected kind (\<open>data\<close> and \<open>out\<close>
  directories, \<open>out/data.json\<close> a regular file) and reading and writing to succeed.
\<close>

datatype file_text = NotJSON | Document json

datatype node = File file_text | SubDir

record world =
  cwd :: string
  columns :: nat
  data_dir :: "(string \<times> node) list option"
  out_exists :: bool
  out_data_json :: "string option"

definition json_loads :: "file_text \<Rightarrow> error + json" where
  "json_loads src = (case src of NotJSON \<Rightarrow> Inl JSONDecodeError | Document j \<Rightarrow> Inr j)"

text \<open>\<open>str(Path(p).absolute())\<close> for a relative path \<open>p\<close>.\<close>

definition absolute :: "world \<Rightarrow> string \<Rightarrow> string" where
  "absolute w p = (if cwd w = ''/'' then ''/'' @ p else cwd w @ ''/'' @ p)"

definition is_file :: "node \<Rightarrow> bool" where
  "is_file n = (case n of File t \<Rightarrow> True | SubDir \<Rightarrow> False)"

text \<open>\<open>Path(fp).read_text()\<close>, for the paths of the directory \<open>data\<close>.\<close>

definition read_text :: "world \<Rightarrow> string \<Rightarrow> error + file_text" where
  "read_text w fp =
     (case data_dir w of
        None \<Rightarrow> Inl FileNotFoundError
      | Some listing \<Rightarrow>
          (case map_of (map (\<lambda>e. (absolute w (''data/'' @ fst e), snd e)) listing) fp of
             None \<Rightarrow> Inl FileNotFoundError
           | Some SubDir \<Rightarrow> Inl IsADirectoryError
           | Some (File t) \<Rightarrow> Inr t))"

text \<open>\<open>term_width\<close> (lines 9-10).\<close>

definition term_width :: "world \<Rightarrow> nat" where
  "term_width w = columns w"

text \<open>
  \<open>Parser\<close> (lines 68-81). \<open>data\<close> is an attribute of the class, not of the instance:
  \<open>__init__\<close> does not assign it, so the record of an instance has no such field and
  the catalog is passed along as the state of the class.
\<close>

record parser =
  files_to_parse :: "string list"
  min_width :: nat
  current :: int

definition Parser_data :: catalog where
  "Parser_data = []"

definition Parser_init :: "world \<Rightarrow> error + parser" where
  "Parser_init w =
     (case data_dir w of
        None \<Rightarrow> Inl FileNotFoundError
      | Some listing \<Rightarrow>
          Inr \<lparr>files_to_parse =
                 map (\<lambda>e. absolute w (''data/'' @ fst e)) (filter (\<lambda>e. is_file (snd e)) listing),
               min_width = term_width w,
               current = 1\<rparr>)"

text \<open>
  \<open>Parser.load_dataset\<close> (lines 83-104) returns the instance, the catalog of the class
  and the text printed.
\<close>

definition load_dataset ::
  "world \<Rightarrow> parser \<Rightarrow> string \<Rightarrow> catalog \<Rightarrow> error + (parser \<times> catalog \<times> string)" where
  "load_dataset w self fp data =
     (let printed =
            ljust (''['' @ int_repr (current self) @ ''/''
                   @ int_repr (int (length (files_to_parse self))) @ ''] Parsing '' @ fp)
              (min_width self) @ [CHR 0x0D]
      in case read_text w fp of
           Inl e \<Rightarrow> Inl e
         | Inr src \<Rightarrow>
             (case json_loads src of
                Inl e \<Rightarrow> Inl e
              | Inr j \<Rightarrow>
                  (case py_list j of
                     Inl e \<Rightarrow> Inl e
                   | Inr obj \<Rightarrow>
                       (case process_logs data obj of
                          Inl e \<Rightarrow> Inl e
                        | Inr data' \<Rightarrow>
                            Inr (self\<lparr>current := current self + 1\<rparr>, data', printed)))))"

text \<open>\<open>Parser.save\<close> (lines 106-128): the object serialised, then the method itself.\<close>

definition save_output :: "catalog \<Rightarrow> (pykey \<times> pyobj) list" where
  "save_output data =
     map (\<lambda>kvp. (fst kvp, asdict (snd kvp)))
       (sorted_reverse (\<lambda>kvp. artist.total_listens (snd kvp)) data)"

definition save :: "world \<Rightarrow> catalog \<Rightarrow> world \<times> string" where
  "save w data =
     (w\<lparr>out_exists := True, out_data_json := Some (dumps (PyDict (save_output data)))\<rparr>,
      ''Data written to '' @ absolute w ''out/data.json'' @ [CHR 0x0A])"

text \<open>The loop of \<open>main\<close> (lines 138-139).\<close>

fun load_files ::
  "world \<Rightarrow> parser \<Rightarrow> string list \<Rightarrow> catalog \<Rightarrow> string \<Rightarrow> error + (parser \<times> catalog \<times> string)" where
  "load_files w self [] data printed = Inr (self, data, printed)"
| "load_files w self (file # files) data printed =
     (case load_dataset w self file data of
        Inl e \<Rightarrow> Inl e
      | Inr (self', data', p) \<Rightarrow> load_files w self' files data' (printed @ p))"

text \<open>
  \<open>main\<close> (lines 131-144), from a state of the class attribute: \<open>Inr\<close> holds the value
  returned, the text printed and the catalog; \<open>Inl\<close> is an exception that leaves \<open>main\<close>.
  The second component is the environment afterwards.
\<close>

definition main :: "world \<Rightarrow> catalog \<Rightarrow> (error + (int \<times> string \<times> catalog)) \<times> world" where
  "main w data =
     (if data_dir w = None
      then (Inr (1, ''ERROR: Missing input directory '' @ [CHR 0x22] @ ''./data''
                       @ [CHR 0x22, CHR 0x0A], data), w)
      else (case Parser_init w of
              Inl e \<Rightarrow> (Inl e, w)
            | Inr parser \<Rightarrow>
                (case load_files w parser (files_to_parse parser) data [] of
                   Inl e \<Rightarrow> (Inl e, w)
                 | Inr (parser', data', printed) \<Rightarrow>
                     (let (w', p) = save w data'
                      in (Inr (0, printed @ [CHR 0x0A] @ p, data'), w')))))"

text \<open>
  Running the script (lines 147-148): the class is created with an empty \<open>data\<close>, and the
  exit status is the value \<open>main\<close> returns, or 1 when an exception leaves it.
\<close>

definition script :: "world \<Rightarrow> int \<times> world" where
  "script w =
     (case main w Parser_data of
        (Inl e, w') \<Rightarrow> (1, w')
      | (Inr (status, printed, data), w') \<Rightarrow> (status, w'))"

section \<open>Notions of the specification\<close>

abbreviation (input) artist_field :: string where
  "artist_field \<equiv> ''master_metadata_album_artist_name''"

abbreviation (input) album_field :: string where
  "album_field \<equiv> ''master_metadata_album_album_name''"

abbreviation (input) track_field :: string where
  "track_field \<equiv> ''master_metadata_track_name''"

text \<open>
  The three levels of counters, read the way the program reads them: a level that
  is absent counts as zero listens.
\<close>

definition artist_listens :: "catalog \<Rightarrow> pykey \<Rightarrow> int" where
  "artist_listens data a = artist.total_listens (dict_get data a Artist)"

definition album_listens :: "catalog \<Rightarrow> pykey \<Rightarrow> pykey \<Rightarrow> int" where
  "album_listens data a b =
     album.total_listens (dict_get (albums (dict_get data a Artist)) b Album)"

definition track_listens :: "catalog \<Rightarrow> pykey \<Rightarrow> pykey \<Rightarrow> pykey \<Rightarrow> int" where
  "track_listens data a b t =
     dict_get (tracks (dict_get (albums (dict_get data a Artist)) b Album)) t 0"

definition album_keys :: "catalog \<Rightarrow> pykey \<Rightarrow> pykey list" where
  "album_keys data a = map fst (albums (dict_get data a Artist))"

definition track_keys :: "catalog \<Rightarrow> pykey \<Rightarrow> pykey \<Rightarrow> pykey list" where
  "track_keys data a b = map fst (tracks (dict_get (albums (dict_get data a Artist)) b Album))"

text \<open>The invariants of the data model (section 3 of the specification).\<close>

definition album_consistent :: "album \<Rightarrow> bool" where
  "album_consistent al = (album.total_listens al = sum_list (map snd (tracks al)))"

definition artist_consistent :: "artist \<Rightarrow> bool" where
  "artist_consistent ar =
     (artist.total_listens ar = sum_list (map (\<lambda>kv. album.total_listens (snd kv)) (albums ar)))"

definition catalog_consistent :: "catalog \<Rightarrow> bool" where
  "catalog_consistent data =
     (\<forall>ar \<in> snd ` set data.
        artist_consistent ar \<and> (\<forall>al \<in> snd ` set (albums ar). album_consistent al))"

text \<open>
  A valid file (section 6): a JSON array of objects that have the three keys, each
  with a string or null.
\<close>

definition str_or_null :: "json \<Rightarrow> bool" where
  "str_or_null j = (case j of JNull \<Rightarrow> True | JStr s \<Rightarrow> True | _ \<Rightarrow> False)"

definition valid_record :: "json \<Rightarrow> bool" where
  "valid_record r =
     (case r of
        JObj kvs \<Rightarrow>
          (case (map_of kvs artist_field, map_of kvs album_field, map_of kvs track_field) of
             (Some a, Some b, Some t) \<Rightarrow> str_or_null a \<and> str_or_null b \<and> str_or_null t
           | _ \<Rightarrow> False)
      | _ \<Rightarrow> False)"

definition valid_document :: "file_text \<Rightarrow> bool" where
  "valid_document src =
     (case src of Document (JArr logs) \<Rightarrow> list_all valid_record logs | _ \<Rightarrow> False)"

definition valid_file :: "world \<Rightarrow> string \<Rightarrow> bool" where
  "valid_file w fp = (case read_text w fp of Inl e \<Rightarrow> False | Inr src \<Rightarrow> valid_document src)"

text \<open>
  The order of first encounter: the artists of the entries processed, in the order of
  the records, each artist at its first occurrence only.
\<close>

fun first_seen :: "pykey list \<Rightarrow> pykey list" where
  "first_seen [] = []"
| "first_seen (x # xs) = x # filter (\<lambda>y. \<not> py_eq x y) (first_seen xs)"

fun artists_encountered :: "json list \<Rightarrow> pykey list" where
  "artists_encountered [] = []"
| "artists_encountered (log # rest) =
     (case to_entry log of
        Inr (Some e) \<Rightarrow> (case as_key (artist_name e) of Some a \<Rightarrow> [a] | None \<Rightarrow> [])
      | _ \<Rightarrow> [])
     @ artists_encountered rest"

definition file_logs :: "world \<Rightarrow> string \<Rightarrow> json list" where
  "file_logs w fp =
     (case read_text w fp of
        Inr (Document j) \<Rightarrow> (case py_list j of Inr logs \<Rightarrow> logs | Inl e \<Rightarrow> [])
      | _ \<Rightarrow> [])"

definition add_key :: "pykey list \<Rightarrow> pykey \<Rightarrow> pykey list" where
  "add_key ks a = (if \<exists>k \<in> set ks. py_eq k a then ks else ks @ [a])"

text \<open>The member \<open>total_listens\<close> of an object of the output.\<close>

definition listens_of :: "pyobj \<Rightarrow> int" where
  "listens_of obj =
     (case obj of
        PyDict items \<Rightarrow>
          (case map_of items (KStr ''total_listens'') of Some (PyInt n) \<Rightarrow> n | _ \<Rightarrow> 0)
      | PyInt n \<Rightarrow> 0)"

text \<open>A text given by its lines.\<close>

definition text_lines :: "string list \<Rightarrow> string" where
  "text_lines ls = join [CHR 0x0A] ls"

subsection \<open>Concrete inputs\<close>

text \<open>The scenario of section 8: one file with four records, the last without artist.\<close>

definition scenario :: json where
  "scenario = JArr
     [JObj [(artist_field, JStr ''A''), (album_field, JStr ''X''), (track_field, JStr ''T1'')],
      JObj [(artist_field, JStr ''A''), (album_field, JStr ''X''), (track_field, JStr ''T1'')],
      JObj [(artist_field, JStr ''A''), (album_field, JStr ''X''), (track_field, JStr ''T2'')],
      JObj [(artist_field, JNull), (album_field, JStr ''Y''), (track_field, JStr ''T3'')]]"

definition scenario_catalog :: catalog where
  "scenario_catalog =
     [(KStr ''A'',
       \<lparr>albums = [(KStr ''X'', \<lparr>tracks = [(KStr ''T1'', 2), (KStr ''T2'', 1)],
                                  album.total_listens = 3\<rparr>)],
        artist.total_listens = 3\<rparr>)]"

text \<open>The expected output of the scenario, as the specification gives it.\<close>

definition scenario_object :: pyobj where
  "scenario_object =
     PyDict [(KStr ''A'',
       PyDict [(KStr ''albums'',
                PyDict [(KStr ''X'',
                  PyDict [(KStr ''tracks'', PyDict [(KStr ''T1'', PyInt 2), (KStr ''T2'', PyInt 1)]),
                          (KStr ''total_listens'', PyInt 3)])]),
               (KStr ''total_listens'', PyInt 3)])]"

definition scenario_text :: string where
  \<open>scenario_text = text_lines
     [''{'',
      ''    "A": {'',
      ''        "albums": {'',
      ''            "X": {'',
      ''                "tracks": {'',
      ''                    "T1": 2,'',
      ''                    "T2": 1'',
      ''                },'',
      ''                "total_listens": 3'',
      ''            }'',
      ''        },'',
      ''        "total_listens": 3'',
      ''    }'',
      ''}'']\<close>

definition directory :: "(string \<times> node) list option \<Rightarrow> world" where
  "directory listing =
     \<lparr>cwd = ''/home/u'', columns = 40, data_dir = listing,
      out_exists = False, out_data_json = None\<rparr>"

definition scenario_world :: world where
  "scenario_world = directory (Some [(''a.json'', File (Document scenario))])"

definition a_json :: string where
  "a_json = ''/home/u/data/a.json''"

definition first_parser :: parser where
  "first_parser = \<lparr>files_to_parse = [a_json], min_width = 40, current = 1\<rparr>"

definition a_json_progress :: string where
  "a_json_progress = ljust ''[1/1] Parsing /home/u/data/a.json'' 40 @ [CHR 0x0D]"

text \<open>Three artists, two of them with one listen each: \<open>B\<close>, \<open>A\<close>, \<open>B\<close>, \<open>C\<close>.\<close>

definition ties :: json where
  "ties = JArr
     [JObj [(artist_field, JStr ''B''), (album_field, JStr ''X''), (track_field, JStr ''T'')],
      JObj [(artist_field, JStr ''A''), (album_field, JStr ''Y''), (track_field, JStr ''T'')],
      JObj [(artist_field, JStr ''B''), (album_field, JStr ''X''), (track_field, JStr ''T'')],
      JObj [(artist_field, JStr ''C''), (album_field, JStr ''Z''), (track_field, JStr ''T'')]]"

definition ties_world :: world where
  "ties_world = directory (Some [(''a.json'', File (Document ties))])"

definition ties_catalog :: catalog where
  "ties_catalog =
     [(KStr ''B'', \<lparr>albums = [(KStr ''X'', \<lparr>tracks = [(KStr ''T'', 2)], album.total_listens = 2\<rparr>)],
                   artist.total_listens = 2\<rparr>),
      (KStr ''A'', \<lparr>albums = [(KStr ''Y'', \<lparr>tracks = [(KStr ''T'', 1)], album.total_listens = 1\<rparr>)],
                   artist.total_listens = 1\<rparr>),
      (KStr ''C'', \<lparr>albums = [(KStr ''Z'', \<lparr>tracks = [(KStr ''T'', 1)], album.total_listens = 1\<rparr>)],
                   artist.total_listens = 1\<rparr>)]"

text \<open>A record without the track field, and files that are not JSON arrays.\<close>

definition record_without_track :: json where
  "record_without_track = JObj [(artist_field, JStr ''A''), (album_field, JStr ''X'')]"

definition not_json_world :: world where
  "not_json_world = directory (Some [(''a.json'', File NotJSON)])"

definition empty_object_world :: world where
  "empty_object_world = directory (Some [(''a.json'', File (Document (JObj [])))])"

definition subdir_world :: world where
  "subdir_world = directory (Some [(''old'', SubDir)])"

section \<open>Dictionaries\<close>

lemma py_eq_refl [simp]: "py_eq k k"
  by (simp add: py_eq_def)

lemma py_eq_cong: "py_eq a b \<Longrightarrow> py_eq a c = py_eq b c"
  by (simp add: py_eq_def)

lemma dict_lookup_set:
  "dict_lookup (dict_set d k v) k' = (if py_eq k k' then Some v else dict_lookup d k')"
  by (induction d) (auto simp: py_eq_def)

lemma dict_get_set:
  "dict_get (dict_set d k v) k' dflt = (if py_eq k k' then v else dict_get d k' dflt)"
  by (simp add: dict_get_def dict_lookup_set)

lemma dict_lookup_cong: "py_eq k k' \<Longrightarrow> dict_lookup d k' = dict_lookup d k"
  by (induction d) (auto simp: py_eq_def)

lemma dict_get_cong: "py_eq k k' \<Longrightarrow> dict_get d k' dflt = dict_get d k dflt"
  by (simp add: dict_get_def dict_lookup_cong)

lemma dict_set_keys:
  "map fst (dict_set d k v) = map fst d @ (if dict_lookup d k = None then [k] else [])"
  by (induction d) (auto split: if_splits)

lemma dict_set_values: "x \<in> snd ` set (dict_set d k v) \<Longrightarrow> x = v \<or> x \<in> snd ` set d"
  by (induction d) (force split: if_splits)+

lemma dict_lookup_in: "dict_lookup d k = Some v \<Longrightarrow> v \<in> snd ` set d"
  by (induction d) (auto split: if_splits)

lemma dict_lookup_None: "dict_lookup d k = None \<longleftrightarrow> (\<forall>k' \<in> set (map fst d). \<not> py_eq k' k)"
  by (induction d) (auto split: if_splits)

lemma dict_set_sum:
  fixes f :: "'v \<Rightarrow> int"
  shows "sum_list (map (\<lambda>kv. f (snd kv)) (dict_set d k v)) =
     sum_list (map (\<lambda>kv. f (snd kv)) d)
       - (case dict_lookup d k of None \<Rightarrow> 0 | Some x \<Rightarrow> f x) + f v"
  by (induction d) auto

section \<open>One entry\<close>

lemma Album_update_ok:
  assumes "as_key (track_name e) = Some t"
  shows "Album_update al e =
     Inr \<lparr>tracks = dict_set (tracks al) t (dict_get (tracks al) t 0 + 1),
          album.total_listens = album.total_listens al + 1\<rparr>"
  using assms by (simp add: Album_update_def)

lemma Artist_update_ok:
  assumes "as_key (album_name e) = Some b" and "as_key (track_name e) = Some t"
  shows "Artist_update ar e =
     Inr \<lparr>albums = dict_set (albums ar) b
            \<lparr>tracks = dict_set (tracks (dict_get (albums ar) b Album)) t
                        (dict_get (tracks (dict_get (albums ar) b Album)) t 0 + 1),
             album.total_listens = album.total_listens (dict_get (albums ar) b Album) + 1\<rparr>,
          artist.total_listens = artist.total_listens ar + 1\<rparr>"
  using assms by (simp add: Artist_update_def Album_update_ok)

lemma add_entry_ok:
  assumes "as_key (artist_name e) = Some a" and "as_key (album_name e) = Some b"
    and "as_key (track_name e) = Some t"
  shows "add_entry data e =
     Inr (dict_set data a
       \<lparr>albums = dict_set (albums (dict_get data a Artist)) b
          \<lparr>tracks = dict_set (tracks (dict_get (albums (dict_get data a Artist)) b Album)) t
              (dict_get (tracks (dict_get (albums (dict_get data a Artist)) b Album)) t 0 + 1),
           album.total_listens =
              album.total_listens (dict_get (albums (dict_get data a Artist)) b Album) + 1\<rparr>,
        artist.total_listens = artist.total_listens (dict_get data a Artist) + 1\<rparr>)"
  using assms by (simp add: add_entry_def Artist_update_ok)

lemma add_entry_Inr:
  assumes "add_entry data e = Inr data'"
  shows "\<exists>a b t. as_key (artist_name e) = Some a \<and> as_key (album_name e) = Some b
           \<and> as_key (track_name e) = Some t"
  using assms
  by (auto simp: add_entry_def Artist_update_def Album_update_def split: option.splits sum.splits)

lemma add_entry_effect:
  assumes "as_key (artist_name e) = Some a" and "as_key (album_name e) = Some b"
    and "as_key (track_name e) = Some t"
  shows "\<exists>data'. add_entry data e = Inr data'
     \<and> (\<forall>a'. artist_listens data' a' = artist_listens data a' + (if py_eq a a' then 1 else 0))
     \<and> (\<forall>a' b'. album_listens data' a' b' =
           album_listens data a' b' + (if py_eq a a' \<and> py_eq b b' then 1 else 0))
     \<and> (\<forall>a' b' t'. track_listens data' a' b' t' =
           track_listens data a' b' t'
             + (if py_eq a a' \<and> py_eq b b' \<and> py_eq t t' then 1 else 0))
     \<and> map fst data' = map fst data @ (if dict_lookup data a = None then [a] else [])
     \<and> (\<forall>a'. album_keys data' a' =
           album_keys data a'
             @ (if py_eq a a' \<and> dict_lookup (albums (dict_get data a Artist)) b = None
                then [b] else []))
     \<and> (\<forall>a' b'. track_keys data' a' b' =
           track_keys data a' b'
             @ (if py_eq a a' \<and> py_eq b b'
                   \<and> dict_lookup (tracks (dict_get (albums (dict_get data a Artist)) b Album)) t
                       = None
                then [t] else []))"
proof -
  let ?ar = "dict_get data a Artist"
  let ?al = "dict_get (albums ?ar) b Album"
  let ?al' = "\<lparr>tracks = dict_set (tracks ?al) t (dict_get (tracks ?al) t 0 + 1),
               album.total_listens = album.total_listens ?al + 1\<rparr>"
  let ?ar' = "\<lparr>albums = dict_set (albums ?ar) b ?al',
               artist.total_listens = artist.total_listens ?ar + 1\<rparr>"
  let ?data' = "dict_set data a ?ar'"
  have step: "add_entry data e = Inr ?data'"
    by (rule add_entry_ok [OF assms])
  have artist: "dict_get ?data' a' Artist = (if py_eq a a' then ?ar' else dict_get data a' Artist)"
    for a'
    by (rule dict_get_set)
  have same_artist: "dict_get data a' Artist = ?ar" if "py_eq a a'" for a'
    using that by (rule dict_get_cong)
  have same_album: "dict_get (albums ?ar) b' Album = ?al" if "py_eq b b'" for b'
    using that by (rule dict_get_cong)
  have same_track: "dict_get (tracks ?al) t' 0 = dict_get (tracks ?al) t 0" if "py_eq t t'" for t'
    using that by (rule dict_get_cong)
  have c1: "artist_listens ?data' a' = artist_listens data a' + (if py_eq a a' then 1 else 0)"
    for a'
  proof (cases "py_eq a a'")
    case True
    with same_artist [OF True] show ?thesis
      by (simp add: artist_listens_def artist)
  next
    case False
    then show ?thesis
      by (simp add: artist_listens_def artist)
  qed
  have c2: "album_listens ?data' a' b' =
      album_listens data a' b' + (if py_eq a a' \<and> py_eq b b' then 1 else 0)" for a' b'
  proof (cases "py_eq a a'")
    case True
    note a = same_artist [OF True]
    show ?thesis
    proof (cases "py_eq b b'")
      case True
      with \<open>py_eq a a'\<close> a same_album [OF True] show ?thesis
        by (simp add: album_listens_def artist dict_get_set)
    next
      case False
      with \<open>py_eq a a'\<close> a show ?thesis
        by (simp add: album_listens_def artist dict_get_set)
    qed
  next
    case False
    then show ?thesis
      by (simp add: album_listens_def artist)
  qed
  have c3: "track_listens ?data' a' b' t' =
      track_listens data a' b' t' + (if py_eq a a' \<and> py_eq b b' \<and> py_eq t t' then 1 else 0)"
    for a' b' t'
  proof (cases "py_eq a a'")
    case True
    note a = same_artist [OF True]
    show ?thesis
    proof (cases "py_eq b b'")
      case True
      note b = same_album [OF True]
      show ?thesis
      proof (cases "py_eq t t'")
        case True
        with \<open>py_eq a a'\<close> \<open>py_eq b b'\<close> a b same_track [OF True] show ?thesis
          by (simp add: track_listens_def artist dict_get_set)
      next
        case False
        with \<open>py_eq a a'\<close> \<open>py_eq b b'\<close> a b show ?thesis
          by (simp add: track_listens_def artist dict_get_set)
      qed
    next
      case False
      with \<open>py_eq a a'\<close> a show ?thesis
        by (simp add: track_listens_def artist dict_get_set)
    qed
  next
    case False
    then show ?thesis
      by (simp add: track_listens_def artist)
  qed
  have c4: "map fst ?data' = map fst data @ (if dict_lookup data a = None then [a] else [])"
    by (rule dict_set_keys)
  have c5: "album_keys ?data' a' =
      album_keys data a'
        @ (if py_eq a a' \<and> dict_lookup (albums ?ar) b = None then [b] else [])" for a'
  proof (cases "py_eq a a'")
    case True
    with same_artist [OF True] show ?thesis
      by (simp add: album_keys_def artist dict_set_keys)
  next
    case False
    then show ?thesis
      by (simp add: album_keys_def artist)
  qed
  have c6: "track_keys ?data' a' b' =
      track_keys data a' b'
        @ (if py_eq a a' \<and> py_eq b b' \<and> dict_lookup (tracks ?al) t = None then [t] else [])"
    for a' b'
  proof (cases "py_eq a a'")
    case True
    note a = same_artist [OF True]
    show ?thesis
    proof (cases "py_eq b b'")
      case True
      with \<open>py_eq a a'\<close> a same_album [OF True] show ?thesis
        by (simp add: track_keys_def artist dict_get_set dict_set_keys)
    next
      case False
      with \<open>py_eq a a'\<close> a show ?thesis
        by (simp add: track_keys_def artist dict_get_set)
    qed
  next
    case False
    then show ?thesis
      by (simp add: track_keys_def artist)
  qed
  show ?thesis
    apply (rule exI [of _ ?data'])
    apply (intro conjI allI)
          apply (rule step)
         apply (rule c1)
        apply (rule c2)
       apply (rule c3)
      apply (rule c4)
     apply (rule c5)
    apply (rule c6)
    done
qed

section \<open>Counter consistency\<close>

lemma album_consistent_Album: "album_consistent Album"
  by (simp add: album_consistent_def Album_def)

lemma artist_consistent_Artist: "artist_consistent Artist"
  by (simp add: artist_consistent_def Artist_def)

lemma Album_update_consistent:
  assumes "Album_update al e = Inr al'" and "album_consistent al"
  shows "album_consistent al'"
proof -
  from assms(1) obtain t where t: "as_key (track_name e) = Some t"
    by (auto simp: Album_update_def split: option.splits)
  have "sum_list (map (\<lambda>kv. snd kv) (dict_set (tracks al) t (dict_get (tracks al) t 0 + 1)))
      = sum_list (map (\<lambda>kv. snd kv) (tracks al)) + 1"
    by (simp add: dict_set_sum [where f = "\<lambda>x. x"] dict_get_def split: option.splits)
  with assms t show ?thesis
    by (auto simp: Album_update_ok album_consistent_def)
qed

lemma Artist_update_consistent:
  assumes "Artist_update ar e = Inr ar'" and "artist_consistent ar"
    and "\<forall>al \<in> snd ` set (albums ar). album_consistent al"
  shows "artist_consistent ar' \<and> (\<forall>al \<in> snd ` set (albums ar'). album_consistent al)"
proof -
  from assms(1) obtain b al' where b: "as_key (album_name e) = Some b"
    and al': "Album_update (dict_get (albums ar) b Album) e = Inr al'"
    and ar': "ar' = \<lparr>albums = dict_set (albums ar) b al',
                     artist.total_listens = artist.total_listens ar + 1\<rparr>"
    by (auto simp: Artist_update_def split: option.splits sum.splits)
  let ?al = "dict_get (albums ar) b Album"
  have old: "album_consistent ?al"
  proof (cases "dict_lookup (albums ar) b")
    case None
    then show ?thesis
      by (simp add: dict_get_def album_consistent_Album)
  next
    case (Some v)
    then have "?al = v" and "v \<in> snd ` set (albums ar)"
      by (simp_all add: dict_get_def dict_lookup_in)
    with assms(3) show ?thesis
      by blast
  qed
  have new: "album_consistent al'"
    by (rule Album_update_consistent [OF al' old])
  have total: "album.total_listens al' = album.total_listens ?al + 1"
    using al' by (auto simp: Album_update_def split: option.splits)
  have "sum_list (map (\<lambda>kv. album.total_listens (snd kv)) (dict_set (albums ar) b al'))
      = sum_list (map (\<lambda>kv. album.total_listens (snd kv)) (albums ar)) + 1"
    using total
    by (simp add: dict_set_sum [where f = album.total_listens] dict_get_def Album_def
          split: option.splits)
  with assms(2) have 1: "artist_consistent ar'"
    by (simp add: ar' artist_consistent_def)
  have 2: "\<forall>al \<in> snd ` set (albums ar'). album_consistent al"
  proof
    fix x
    assume "x \<in> snd ` set (albums ar')"
    then have "x = al' \<or> x \<in> snd ` set (albums ar)"
      using dict_set_values [of x "albums ar" b al'] by (simp add: ar')
    with new assms(3) show "album_consistent x"
      by blast
  qed
  from 1 2 show ?thesis ..
qed

lemma add_entry_consistent:
  assumes "add_entry data e = Inr data'" and "catalog_consistent data"
  shows "catalog_consistent data'"
proof -
  from assms(1) obtain a ar' where a: "as_key (artist_name e) = Some a"
    and ar': "Artist_update (dict_get data a Artist) e = Inr ar'"
    and data': "data' = dict_set data a ar'"
    by (auto simp: add_entry_def split: option.splits sum.splits)
  let ?ar = "dict_get data a Artist"
  have old: "artist_consistent ?ar \<and> (\<forall>al \<in> snd ` set (albums ?ar). album_consistent al)"
  proof (cases "dict_lookup data a")
    case None
    then have "?ar = Artist"
      by (simp add: dict_get_def)
    then show ?thesis
      by (simp add: artist_consistent_Artist) (simp add: Artist_def)
  next
    case (Some v)
    then have "?ar = v" and "v \<in> snd ` set data"
      by (simp_all add: dict_get_def dict_lookup_in)
    with assms(2) show ?thesis
      unfolding catalog_consistent_def by blast
  qed
  have new: "artist_consistent ar' \<and> (\<forall>al \<in> snd ` set (albums ar'). album_consistent al)"
    using Artist_update_consistent [OF ar'] old by blast
  show ?thesis
    unfolding catalog_consistent_def data'
  proof
    fix x
    assume "x \<in> snd ` set (dict_set data a ar')"
    then have "x = ar' \<or> x \<in> snd ` set data"
      by (rule dict_set_values)
    with new assms(2)
    show "artist_consistent x \<and> (\<forall>al \<in> snd ` set (albums x). album_consistent al)"
      by (auto simp: catalog_consistent_def)
  qed
qed

lemma process_logs_consistent:
  "process_logs data logs = Inr data' \<Longrightarrow> catalog_consistent data \<Longrightarrow> catalog_consistent data'"
proof (induction logs arbitrary: data)
  case Nil
  then show ?case by simp
next
  case (Cons log rest)
  then show ?case
    by (auto split: sum.splits option.splits dest: add_entry_consistent)
qed

lemma load_dataset_consistent:
  assumes "load_dataset w self fp data = Inr (self', data', printed)"
    and "catalog_consistent data"
  shows "catalog_consistent data'"
  using assms
  by (auto simp: load_dataset_def Let_def split: sum.splits dest: process_logs_consistent)

lemma load_files_consistent:
  "load_files w self fps data printed = Inr (self', data', printed')
   \<Longrightarrow> catalog_consistent data \<Longrightarrow> catalog_consistent data'"
proof (induction fps arbitrary: self data printed)
  case Nil
  then show ?case by simp
next
  case (Cons fp fps)
  then show ?case
    by (auto split: sum.splits prod.splits dest: load_dataset_consistent)
qed

lemma valid_record_to_entry:
  assumes "valid_record r"
  shows "to_entry r = Inr None
    \<or> (\<exists>a b t. to_entry r = Inr (Some \<lparr>artist_name = JStr a, album_name = JStr b,
                                          track_name = JStr t\<rparr>))"
  using assms
  by (auto simp: valid_record_def to_entry_def str_or_null_def split: json.splits option.splits)

lemma process_logs_valid:
  "list_all valid_record logs \<Longrightarrow> \<exists>data'. process_logs data logs = Inr data'"
proof (induction logs arbitrary: data)
  case Nil
  then show ?case by simp
next
  case (Cons log rest)
  from Cons.prems have v: "valid_record log" and r: "list_all valid_record rest"
    by simp_all
  from valid_record_to_entry [OF v] show ?case
  proof
    assume "to_entry log = Inr None"
    with Cons.IH [OF r] show ?thesis by simp
  next
    assume "\<exists>a b t. to_entry log = Inr (Some \<lparr>artist_name = JStr a, album_name = JStr b,
                                          track_name = JStr t\<rparr>)"
    then obtain a b t where e: "to_entry log = Inr (Some \<lparr>artist_name = JStr a,
        album_name = JStr b, track_name = JStr t\<rparr>)"
      by blast
    have "\<exists>d. add_entry data \<lparr>artist_name = JStr a, album_name = JStr b, track_name = JStr t\<rparr>
        = Inr d"
      by (simp add: add_entry_ok [of _ "KStr a" "KStr b" "KStr t"])
    then obtain d where d: "add_entry data \<lparr>artist_name = JStr a, album_name = JStr b,
        track_name = JStr t\<rparr> = Inr d" ..
    from Cons.IH [OF r, of d] e d show ?thesis by simp
  qed
qed

lemma load_dataset_valid:
  assumes "valid_file w fp"
  shows "\<exists>data' printed. load_dataset w self fp data
           = Inr (self\<lparr>current := current self + 1\<rparr>, data', printed)"
proof -
  from assms obtain logs where r: "read_text w fp = Inr (Document (JArr logs))"
    and v: "list_all valid_record logs"
    by (auto simp: valid_file_def valid_document_def split: sum.splits file_text.splits json.splits)
  from process_logs_valid [OF v] obtain data' where "process_logs data logs = Inr data'" ..
  with r show ?thesis
    by (simp add: load_dataset_def json_loads_def)
qed

lemma load_files_valid:
  "\<forall>fp \<in> set fps. valid_file w fp
   \<Longrightarrow> \<exists>self' data' printed'. load_files w self fps data printed = Inr (self', data', printed')"
proof (induction fps arbitrary: self data printed)
  case Nil
  then show ?case by simp
next
  case (Cons fp fps)
  from Cons.prems have "valid_file w fp" by simp
  from load_dataset_valid [OF this] obtain d p where
    "load_dataset w self fp data = Inr (self\<lparr>current := current self + 1\<rparr>, d, p)"
    by blast
  moreover from Cons.prems have "\<forall>fp \<in> set fps. valid_file w fp" by simp
  from Cons.IH [OF this] obtain s' d' p' where
    "load_files w (self\<lparr>current := current self + 1\<rparr>) fps d (printed @ p) = Inr (s', d', p')"
    by blast
  ultimately show ?case by simp
qed

lemma catalog_consistent_Parser_data: "catalog_consistent Parser_data"
  by (simp add: catalog_consistent_def Parser_data_def)

text \<open>
  C1 (counter consistency). Whatever valid files are ingested, in whatever order and
  through whatever instance, starting from the empty catalog of the class: every file is
  ingested without an exception, and in the resulting catalog the \<open>total_listens\<close> of every
  artist is the sum of the \<open>total_listens\<close> of its albums, and the \<open>total_listens\<close> of every
  album is the sum of its track counts.
\<close>

theorem counter_consistency:
  assumes "\<forall>fp \<in> set fps. valid_file w fp"
  shows "\<exists>self' data printed'.
           load_files w self fps Parser_data printed = Inr (self', data, printed')
           \<and> catalog_consistent data"
proof -
  from load_files_valid [OF assms] obtain self' data printed' where
    l: "load_files w self fps Parser_data printed = Inr (self', data, printed')"
    by blast
  from load_files_consistent [OF l catalog_consistent_Parser_data] l show ?thesis
    by blast
qed

theorem counter_consistency_witness:
  "valid_file scenario_world a_json
   \<and> (\<exists>self' data printed'.
         load_files scenario_world first_parser [a_json, a_json] Parser_data []
           = Inr (self', data, printed')
         \<and> catalog_consistent data)"
proof -
  have v: "valid_file scenario_world a_json"
    by code_simp
  then have "\<forall>fp \<in> set [a_json, a_json]. valid_file scenario_world fp"
    by simp
  from counter_consistency [OF this] v show ?thesis
    by blast
qed

section \<open>Entry validation\<close>

text \<open>
  C2 (entry validation), as the code has it. The fields are read in the order artist,
  album, track, and each is tested before the next is read. A record is skipped, and
  leaves the catalog as it was, as soon as a field read is null, whatever the fields after
  it are, absent ones too; so a record that has the three fields is skipped when one of
  them is null. When the three are strings (empty ones too) the record gives the entry of
  these strings, and more generally the entry of its three values when none is null. A
  field that is absent is not skipped: the subscript raises \<open>KeyError\<close>, unless a field
  read before it was null.
\<close>

theorem entry_validation:
  "(map_of kvs artist_field = Some a \<and> map_of kvs album_field = Some b
      \<and> map_of kvs track_field = Some t \<and> (a = JNull \<or> b = JNull \<or> t = JNull) \<longrightarrow>
        to_entry (JObj kvs) = Inr None
        \<and> process_logs data (JObj kvs # rest) = process_logs data rest)
   \<and> (map_of kvs artist_field = Some (JStr x) \<and> map_of kvs album_field = Some (JStr y)
      \<and> map_of kvs track_field = Some (JStr z) \<longrightarrow>
        to_entry (JObj kvs)
          = Inr (Some \<lparr>artist_name = JStr x, album_name = JStr y, track_name = JStr z\<rparr>))
   \<and> (map_of kvs artist_field = None
        \<or> (map_of kvs artist_field = Some a \<and> a \<noteq> JNull
            \<and> (map_of kvs album_field = None
                \<or> (map_of kvs album_field = Some b \<and> b \<noteq> JNull
                    \<and> map_of kvs track_field = None))) \<longrightarrow>
        to_entry (JObj kvs) = Inl KeyError
        \<and> process_logs data (JObj kvs # rest) = Inl KeyError)
   \<and> (map_of kvs artist_field = Some JNull
        \<or> (map_of kvs artist_field = Some a \<and> a \<noteq> JNull
            \<and> (map_of kvs album_field = Some JNull
                \<or> (map_of kvs album_field = Some b \<and> b \<noteq> JNull
                    \<and> map_of kvs track_field = Some JNull))) \<longrightarrow>
        to_entry (JObj kvs) = Inr None
        \<and> process_logs data (JObj kvs # rest) = process_logs data rest)
   \<and> (map_of kvs artist_field = Some a \<and> a \<noteq> JNull
        \<and> map_of kvs album_field = Some b \<and> b \<noteq> JNull
        \<and> map_of kvs track_field = Some t \<and> t \<noteq> JNull \<longrightarrow>
        to_entry (JObj kvs) = Inr (Some \<lparr>artist_name = a, album_name = b, track_name = t\<rparr>))"
  by (auto simp add: to_entry_def)

theorem entry_validation_witness:
  "to_entry (JObj [(artist_field, JNull), (album_field, JStr ''Y''), (track_field, JStr ''T3'')])
     = Inr None
   \<and> process_logs scenario_catalog
        [JObj [(artist_field, JNull), (album_field, JStr ''Y''), (track_field, JStr ''T3'')]]
       = Inr scenario_catalog
   \<and> to_entry (JObj [(artist_field, JStr ''''), (album_field, JStr '' ''), (track_field, JStr ''T'')])
       = Inr (Some \<lparr>artist_name = JStr '''', album_name = JStr '' '', track_name = JStr ''T''\<rparr>)
   \<and> to_entry (JObj [(artist_field, JStr ''A'')]) = Inl KeyError
   \<and> to_entry (JObj [(artist_field, JNull)]) = Inr None
   \<and> process_logs scenario_catalog [JObj [(artist_field, JNull)]] = Inr scenario_catalog
   \<and> to_entry (JObj [(artist_field, JStr ''A''), (album_field, JNull)]) = Inr None
   \<and> process_logs scenario_catalog [JObj [(artist_field, JStr ''A''), (album_field, JNull)]]
       = Inr scenario_catalog"
  using entry_validation [of "[(artist_field, JNull), (album_field, JStr ''Y''),
      (track_field, JStr ''T3'')]" JNull "JStr ''Y''" "JStr ''T3''" scenario_catalog "[]"]
    entry_validation [of "[(artist_field, JStr ''''), (album_field, JStr '' ''),
      (track_field, JStr ''T'')]" _ _ _ _ _ "''''" "'' ''" "''T''"]
    entry_validation [of "[(artist_field, JStr ''A'')]" "JStr ''A''"]
    entry_validation [of "[(artist_field, JNull)]" _ _ _ scenario_catalog "[]"]
    entry_validation [of "[(artist_field, JStr ''A''), (album_field, JNull)]" "JStr ''A''" _ _
      scenario_catalog "[]"]
  by simp

theorem absent_field_counterexample:
  "map_of [(artist_field, JStr ''A''), (album_field, JStr ''X'')] track_field = None
   \<and> record_without_track = JObj [(artist_field, JStr ''A''), (album_field, JStr ''X'')]
   \<and> to_entry record_without_track = Inl KeyError
   \<and> to_entry record_without_track \<noteq> Inr None
   \<and> process_logs Parser_data [record_without_track] = Inl KeyError"
  by (simp add: record_without_track_def to_entry_def)

section \<open>Files that are not arrays\<close>

lemma load_dataset_not_array:
  assumes "read_text w fp = Inr src" and "\<forall>logs. src \<noteq> Document (JArr logs)"
  shows "load_dataset w self fp data =
     (if src = Document (JObj []) \<or> src = Document (JStr [])
      then Inr (self\<lparr>current := current self + 1\<rparr>, data,
                ljust (''['' @ int_repr (current self) @ ''/''
                   @ int_repr (int (length (files_to_parse self))) @ ''] Parsing '' @ fp)
              (min_width self) @ [CHR 0x0D])
      else Inl (if src = NotJSON then JSONDecodeError else TypeError))"
proof (cases src)
  case NotJSON
  with assms show ?thesis
    by (simp add: load_dataset_def json_loads_def)
next
  case (Document j)
  show ?thesis
  proof (cases j)
    case (JArr xs)
    with Document assms show ?thesis by simp
  next
    case (JObj kvs)
    with Document assms show ?thesis
      by (cases kvs) (simp_all add: load_dataset_def json_loads_def to_entry_def)
  next
    case (JStr s)
    with Document assms show ?thesis
      by (cases s) (simp_all add: load_dataset_def json_loads_def to_entry_def)
  qed (use Document assms in \<open>simp_all add: load_dataset_def json_loads_def\<close>)
qed

lemma load_files_raises:
  "fp \<in> set fps \<Longrightarrow> \<forall>self data. \<exists>e. load_dataset w self fp data = Inl e
   \<Longrightarrow> \<exists>e. load_files w self fps data printed = Inl e"
proof (induction fps arbitrary: self data printed)
  case Nil
  then show ?case by simp
next
  case (Cons f fps)
  show ?case
  proof (cases "load_dataset w self f data")
    case (Inl e)
    then show ?thesis by simp
  next
    case (Inr r)
    with Cons.prems have "fp \<in> set fps"
      by (metis Inl_Inr_False set_ConsD)
    from Cons.IH [OF this Cons.prems(2)] Inr show ?thesis
      by (cases r) auto
  qed
qed

text \<open>
  C3 (malformed input file), as the code has it. A listed file that is not JSON, or
  whose document is null, a boolean, a number, a string that is not empty or an object
  that is not empty, makes \<open>load_dataset\<close> raise (\<open>JSONDecodeError\<close> for the first,
  \<open>TypeError\<close> for the others) whatever the catalog holds; the exception leaves \<open>main\<close>,
  nothing is written and the exit status is 1. The empty object and the empty string are
  not among them: \<open>list\<close> makes the empty list of either.
\<close>

theorem malformed_input_file:
  assumes "Parser_init w = Inr self" and "fp \<in> set (files_to_parse self)"
    and "read_text w fp = Inr src" and "\<forall>logs. src \<noteq> Document (JArr logs)"
    and "src \<noteq> Document (JObj [])" and "src \<noteq> Document (JStr [])"
  shows "(\<forall>p data. load_dataset w p fp data
            = Inl (if src = NotJSON then JSONDecodeError else TypeError))
       \<and> (\<forall>data. \<exists>e. main w data = (Inl e, w))
       \<and> script w = (1, w)"
proof -
  have 1: "load_dataset w p fp data = Inl (if src = NotJSON then JSONDecodeError else TypeError)"
    for p data
    using load_dataset_not_array [OF assms(3,4)] assms(5,6) by simp
  then have "\<forall>p data. \<exists>e. load_dataset w p fp data = Inl e"
    by blast
  from load_files_raises [OF assms(2) this]
  have 2: "\<exists>e. load_files w self (files_to_parse self) data [] = Inl e" for data
    by blast
  from assms(1) have d: "data_dir w \<noteq> None"
    by (auto simp: Parser_init_def split: option.splits)
  have 3: "\<exists>e. main w data = (Inl e, w)" for data
    using 2 [of data] d assms(1) by (auto simp: main_def)
  have 4: "script w = (1, w)"
    using 3 [of Parser_data] by (auto simp: script_def)
  from 1 3 4 show ?thesis by blast
qed

theorem malformed_input_file_witness:
  "Parser_init not_json_world = Inr first_parser
   \<and> a_json \<in> set (files_to_parse first_parser)
   \<and> read_text not_json_world a_json = Inr NotJSON
   \<and> load_dataset not_json_world first_parser a_json scenario_catalog = Inl JSONDecodeError
   \<and> main not_json_world Parser_data = (Inl JSONDecodeError, not_json_world)
   \<and> script not_json_world = (1, not_json_world)"
proof -
  have 1: "Parser_init not_json_world = Inr first_parser"
    by code_simp
  have 2: "a_json \<in> set (files_to_parse first_parser)"
    by (simp add: first_parser_def)
  have 3: "read_text not_json_world a_json = Inr NotJSON"
    by code_simp
  have 4: "main not_json_world Parser_data = (Inl JSONDecodeError, not_json_world)"
    by code_simp
  from malformed_input_file [OF 1 2 3] 1 2 3 4 show ?thesis
    by simp
qed

theorem empty_object_counterexample:
  "read_text empty_object_world a_json = Inr (Document (JObj []))
   \<and> load_dataset empty_object_world first_parser a_json scenario_catalog
       = Inr (first_parser\<lparr>current := 2\<rparr>, scenario_catalog, a_json_progress)
   \<and> script empty_object_world
       = (0, empty_object_world\<lparr>out_exists := True, out_data_json := Some ''{}''\<rparr>)"
  by code_simp

section \<open>The effect of one entry\<close>

text \<open>
  C6 (per-entry fold effect). An entry whose three names are hashable (every string
  is) is processed without an exception, and afterwards: the listens of an artist, of
  an album and of a track are what they were, plus one exactly for the artist, the album
  and the track of the entry; the keys of the catalog, of every artist's albums and of
  every album's tracks are what they were, in the same order, followed by the key of the
  entry where that level did not exist. So no counter decreases and no key disappears.
\<close>

theorem per_entry_fold_effect:
  assumes "as_key (artist_name e) = Some a" and "as_key (album_name e) = Some b"
    and "as_key (track_name e) = Some t"
  shows "\<exists>data'. add_entry data e = Inr data'
     \<and> (\<forall>a'. artist_listens data' a' = artist_listens data a' + (if py_eq a a' then 1 else 0))
     \<and> (\<forall>a' b'. album_listens data' a' b' =
           album_listens data a' b' + (if py_eq a a' \<and> py_eq b b' then 1 else 0))
     \<and> (\<forall>a' b' t'. track_listens data' a' b' t' =
           track_listens data a' b' t'
             + (if py_eq a a' \<and> py_eq b b' \<and> py_eq t t' then 1 else 0))
     \<and> map fst data' = map fst data @ (if dict_lookup data a = None then [a] else [])
     \<and> (\<forall>a'. album_keys data' a' =
           album_keys data a'
             @ (if py_eq a a' \<and> dict_lookup (albums (dict_get data a Artist)) b = None
                then [b] else []))
     \<and> (\<forall>a' b'. track_keys data' a' b' =
           track_keys data a' b'
             @ (if py_eq a a' \<and> py_eq b b'
                   \<and> dict_lookup (tracks (dict_get (albums (dict_get data a Artist)) b Album)) t
                       = None
                then [t] else []))"
  using assms by (rule add_entry_effect)

theorem per_entry_fold_effect_witness:
  "\<exists>data'. add_entry scenario_catalog
       \<lparr>artist_name = JStr ''A'', album_name = JStr ''Z'', track_name = JStr ''T1''\<rparr> = Inr data'
     \<and> artist_listens data' (KStr ''A'') = 4
     \<and> album_listens data' (KStr ''A'') (KStr ''Z'') = 1
     \<and> album_listens data' (KStr ''A'') (KStr ''X'') = 3
     \<and> track_listens data' (KStr ''A'') (KStr ''Z'') (KStr ''T1'') = 1
     \<and> track_listens data' (KStr ''A'') (KStr ''X'') (KStr ''T1'') = 2
     \<and> map fst data' = [KStr ''A'']
     \<and> album_keys data' (KStr ''A'') = [KStr ''X'', KStr ''Z'']
     \<and> track_keys data' (KStr ''A'') (KStr ''X'') = [KStr ''T1'', KStr ''T2'']"
proof -
  let ?e = "\<lparr>artist_name = JStr ''A'', album_name = JStr ''Z'', track_name = JStr ''T1''\<rparr>"
  have k: "as_key (artist_name ?e) = Some (KStr ''A'')" "as_key (album_name ?e) = Some (KStr ''Z'')"
    "as_key (track_name ?e) = Some (KStr ''T1'')"
    by simp_all
  have v: "artist_listens scenario_catalog (KStr ''A'') = 3"
    "album_listens scenario_catalog (KStr ''A'') (KStr ''Z'') = 0"
    "album_listens scenario_catalog (KStr ''A'') (KStr ''X'') = 3"
    "track_listens scenario_catalog (KStr ''A'') (KStr ''Z'') (KStr ''T1'') = 0"
    "track_listens scenario_catalog (KStr ''A'') (KStr ''X'') (KStr ''T1'') = 2"
    "map fst scenario_catalog = [KStr ''A'']"
    "album_keys scenario_catalog (KStr ''A'') = [KStr ''X'']"
    "track_keys scenario_catalog (KStr ''A'') (KStr ''X'') = [KStr ''T1'', KStr ''T2'']"
    "dict_lookup scenario_catalog (KStr ''A'') \<noteq> None"
    "dict_lookup (albums (dict_get scenario_catalog (KStr ''A'') Artist)) (KStr ''Z'') = None"
    by code_simp+
  have p: "py_eq (KStr ''A'') (KStr ''A'')" "py_eq (KStr ''Z'') (KStr ''Z'')"
    "py_eq (KStr ''T1'') (KStr ''T1'')" "\<not> py_eq (KStr ''Z'') (KStr ''X'')"
    by (simp_all add: py_eq_def)
  from per_entry_fold_effect [OF k, of scenario_catalog] show ?thesis
    apply (elim exE conjE)
    apply (rule exI)
    apply (intro conjI)
            apply assumption
           apply (simp_all only: v p if_True if_False simp_thms append_Nil2)
    apply simp_all
    done
qed

section \<open>Runs of the program\<close>

lemma absolute_out [simp]:
  "absolute (w\<lparr>out_exists := x, out_data_json := y\<rparr>) p = absolute w p"
  by (simp add: absolute_def)

lemma read_text_out [simp]:
  "read_text (w\<lparr>out_exists := x, out_data_json := y\<rparr>) fp = read_text w fp"
  by (cases "data_dir w") (simp_all add: read_text_def)

lemma load_dataset_out [simp]:
  "load_dataset (w\<lparr>out_exists := x, out_data_json := y\<rparr>) self fp data
   = load_dataset w self fp data"
  by (simp add: load_dataset_def)

lemma load_files_out [simp]:
  "load_files (w\<lparr>out_exists := x, out_data_json := y\<rparr>) self fps data printed
   = load_files w self fps data printed"
  by (induction fps arbitrary: self data printed) (simp_all split: sum.splits prod.splits)

lemma Parser_init_out [simp]:
  "Parser_init (w\<lparr>out_exists := x, out_data_json := y\<rparr>) = Parser_init w"
  by (cases "data_dir w") (simp_all add: Parser_init_def term_width_def)

lemma main_out:
  "main (w\<lparr>out_exists := x, out_data_json := y\<rparr>) data =
     (case main w data of
        (Inl e, w') \<Rightarrow> (Inl e, w\<lparr>out_exists := x, out_data_json := y\<rparr>)
      | (Inr (status, r), w') \<Rightarrow>
          (Inr (status, r), if status = 1 then w\<lparr>out_exists := x, out_data_json := y\<rparr> else w'))"
  by (simp add: main_def save_def split: option.splits sum.splits prod.splits)

lemma main_world:
  "snd (main w data) = w
   \<or> (\<exists>t. snd (main w data) = w\<lparr>out_exists := True, out_data_json := Some t\<rparr>)"
  by (auto simp add: main_def save_def split: option.splits sum.splits prod.splits)

lemma scenario_logs:
  "py_list scenario = Inr logs \<Longrightarrow> process_logs Parser_data logs = Inr scenario_catalog"
  by (auto simp add: scenario_def to_entry_def add_entry_def Artist_update_def Album_update_def
      dict_get_def Artist_def Album_def Parser_data_def py_eq_def scenario_catalog_def)

lemma scenario_dumps: "dumps (PyDict (save_output scenario_catalog)) = scenario_text"
  by code_simp

lemma scenario_object_dumps: "PyDict (save_output scenario_catalog) = scenario_object"
  by code_simp

text \<open>
  C4 (scenario). When the directory holds one file with the four records of the
  scenario, the run exits with status 0 and writes the serialisation of the expected
  object, which is the expected JSON text with an indentation of four spaces.
\<close>

theorem scenario_output:
  assumes "data_dir w = Some [(name, File (Document scenario))]"
  shows "script w = (0, w\<lparr>out_exists := True, out_data_json := Some (dumps scenario_object)\<rparr>)
    \<and> dumps scenario_object = scenario_text"
proof -
  let ?fp = "absolute w (''data/'' @ name)"
  let ?self = "\<lparr>files_to_parse = [?fp], min_width = term_width w, current = 1\<rparr>"
  have init: "Parser_init w = Inr ?self"
    using assms by (simp add: Parser_init_def is_file_def)
  have "read_text w ?fp = Inr (Document scenario)"
    using assms by (simp add: read_text_def)
  moreover have "py_list scenario = Inr logs \<Longrightarrow> process_logs Parser_data logs = Inr scenario_catalog"
    for logs
    by (rule scenario_logs)
  moreover have "\<exists>logs. py_list scenario = Inr logs"
    by (simp add: scenario_def)
  ultimately obtain p where
    "load_dataset w ?self ?fp Parser_data
       = Inr (?self\<lparr>current := current ?self + 1\<rparr>, scenario_catalog, p)"
    by (auto simp add: load_dataset_def json_loads_def)
  then have "load_files w ?self [?fp] Parser_data []
      = Inr (?self\<lparr>current := current ?self + 1\<rparr>, scenario_catalog, p)"
    by simp
  with init assms
  have "script w = (0, w\<lparr>out_exists := True, out_data_json := Some (dumps scenario_object)\<rparr>)"
    by (simp add: script_def main_def save_def scenario_object_dumps)
  moreover have "dumps scenario_object = scenario_text"
    using scenario_dumps by (simp add: scenario_object_dumps)
  ultimately show ?thesis ..
qed

theorem scenario_output_witness:
  "data_dir scenario_world = Some [(''a.json'', File (Document scenario))]
   \<and> script scenario_world
       = (0, scenario_world\<lparr>out_exists := True, out_data_json := Some scenario_text\<rparr>)"
proof -
  have d: "data_dir scenario_world = Some [(''a.json'', File (Document scenario))]"
    by (simp add: scenario_world_def directory_def)
  from scenario_output [OF d] d show ?thesis
    by simp
qed

text \<open>
  C7 (idempotent re-run). Running the script again in the environment the first run
  left behind (the same directory \<open>data\<close>, listed in the same order, and whatever the
  first run wrote) ends with the same exit status and leaves the same environment, so
  the same output file, byte for byte.
\<close>

theorem idempotent_rerun: "script (snd (script w)) = script w"
proof -
  have s: "snd (script w) = snd (main w Parser_data)"
    by (simp add: script_def split: prod.splits sum.splits)
  from main_world [of w Parser_data] show ?thesis
  proof
    assume "snd (main w Parser_data) = w"
    with s show ?thesis by simp
  next
    assume "\<exists>t. snd (main w Parser_data) = w\<lparr>out_exists := True, out_data_json := Some t\<rparr>"
    then obtain t where
      t: "snd (main w Parser_data) = w\<lparr>out_exists := True, out_data_json := Some t\<rparr>"
      ..
    show ?thesis
      unfolding s t
      using t
      apply (simp add: script_def main_out split: prod.splits sum.splits)
      apply (auto simp add: main_def save_def split: option.splits sum.splits prod.splits if_splits)
      done
  qed
qed

theorem idempotent_rerun_witness:
  "script (snd (script scenario_world)) = script scenario_world
   \<and> out_data_json (snd (script (snd (script scenario_world)))) = Some scenario_text"
proof -
  have d: "data_dir scenario_world = Some [(''a.json'', File (Document scenario))]"
    by (simp add: scenario_world_def directory_def)
  have "script scenario_world
       = (0, scenario_world\<lparr>out_exists := True, out_data_json := Some scenario_text\<rparr>)"
    using scenario_dumps scenario_object_dumps d
    by code_simp
  with idempotent_rerun [of scenario_world] show ?thesis
    by simp
qed

text \<open>
  C9 (empty input). When the directory \<open>data\<close> exists and holds no file (it may hold
  sub-directories), the run exits with status 0 and the output file holds exactly \<open>{}\<close>.
\<close>

theorem empty_input:
  assumes "data_dir w = Some listing" and "\<forall>e \<in> set listing. \<not> is_file (snd e)"
  shows "script w = (0, w\<lparr>out_exists := True, out_data_json := Some ''{}''\<rparr>)"
proof -
  from assms(2) have "filter (\<lambda>e. is_file (snd e)) listing = []"
    by (simp add: filter_empty_conv)
  with assms(1) show ?thesis
    by (simp add: script_def main_def Parser_init_def save_def save_output_def
      sorted_reverse_def dumps_def Parser_data_def)
qed

theorem empty_input_witness:
  "data_dir subdir_world = Some [(''old'', SubDir)]
   \<and> \<not> is_file SubDir
   \<and> script subdir_world = (0, subdir_world\<lparr>out_exists := True, out_data_json := Some ''{}''\<rparr>)
   \<and> script (directory (Some []))
       = (0, directory (Some [])\<lparr>out_exists := True, out_data_json := Some ''{}''\<rparr>)"
proof -
  have d: "data_dir subdir_world = Some [(''old'', SubDir)]"
    by (simp add: subdir_world_def directory_def)
  have n: "\<not> is_file SubDir"
    by (simp add: is_file_def)
  have e: "data_dir (directory (Some [])) = Some []"
    by (simp add: directory_def)
  from empty_input [OF d] empty_input [OF e] d n show ?thesis
    by simp
qed

section \<open>The order of the output\<close>

lemma add_entry_keys:
  assumes "add_entry data e = Inr data'" and "as_key (artist_name e) = Some a"
  shows "map fst data' = add_key (map fst data) a"
proof -
  from add_entry_Inr [OF assms(1)] assms(2) obtain b t where
    "as_key (album_name e) = Some b" "as_key (track_name e) = Some t" by auto
  from add_entry_ok [OF assms(2) this, of data] assms(1) show ?thesis
    by (auto simp: dict_set_keys add_key_def dict_lookup_None)
qed

lemma process_logs_keys:
  "process_logs data logs = Inr data'
   \<Longrightarrow> map fst data' = foldl add_key (map fst data) (artists_encountered logs)"
proof (induction logs arbitrary: data)
  case Nil
  then show ?case by simp
next
  case (Cons log rest)
  show ?case
  proof (cases "to_entry log")
    case (Inl e)
    with Cons.prems show ?thesis by simp
  next
    case (Inr r)
    show ?thesis
    proof (cases r)
      case None
      with Inr Cons show ?thesis by simp
    next
      case (Some e)
      with Inr Cons.prems obtain d where d: "add_entry data e = Inr d"
        and rest: "process_logs d rest = Inr data'"
        by (auto split: sum.splits)
      from add_entry_Inr [OF d] obtain a where a: "as_key (artist_name e) = Some a"
        by blast
      from Cons.IH [OF rest] add_entry_keys [OF d a] Inr Some a show ?thesis
        by simp
    qed
  qed
qed

lemma artists_encountered_append:
  "artists_encountered (xs @ ys) = artists_encountered xs @ artists_encountered ys"
  by (induction xs) simp_all

lemma load_dataset_keys:
  assumes "load_dataset w self fp data = Inr (self', data', p)"
  shows "map fst data' = foldl add_key (map fst data) (artists_encountered (file_logs w fp))"
  using assms
  by (auto simp: load_dataset_def json_loads_def file_logs_def
      split: sum.splits file_text.splits dest: process_logs_keys)

lemma load_files_keys:
  "load_files w self fps data printed = Inr (self', data', printed')
   \<Longrightarrow> map fst data'
       = foldl add_key (map fst data) (artists_encountered (concat (map (file_logs w) fps)))"
proof (induction fps arbitrary: self data printed)
  case Nil
  then show ?case by simp
next
  case (Cons fp fps)
  from Cons.prems obtain s d p where 1: "load_dataset w self fp data = Inr (s, d, p)"
    and 2: "load_files w s fps d (printed @ p) = Inr (self', data', printed')"
    by (auto split: sum.splits)
  from Cons.IH [OF 2] load_dataset_keys [OF 1] show ?case
    by (simp add: artists_encountered_append)
qed

lemma foldl_add_key:
  "foldl add_key ks xs = ks @ filter (\<lambda>y. \<forall>k \<in> set ks. \<not> py_eq k y) (first_seen xs)"
proof (induction xs arbitrary: ks)
  case Nil
  then show ?case by simp
next
  case (Cons x xs)
  show ?case
  proof (cases "\<exists>k \<in> set ks. py_eq k x")
    case True
    then obtain k where k: "k \<in> set ks" "py_eq k x" by blast
    have "\<not> py_eq x y \<and> (\<forall>k \<in> set ks. \<not> py_eq k y) \<longleftrightarrow> (\<forall>k \<in> set ks. \<not> py_eq k y)" for y
      using k py_eq_cong by blast
    with True Cons.IH [of ks] show ?thesis
      by (simp add: add_key_def)
  next
    case False
    have "(\<forall>k \<in> set (ks @ [x]). \<not> py_eq k y) \<longleftrightarrow> \<not> py_eq x y \<and> (\<forall>k \<in> set ks. \<not> py_eq k y)"
      for y
      by auto
    with False Cons.IH [of "ks @ [x]"] show ?thesis
      by (simp add: add_key_def)
  qed
qed

lemma listens_of_asdict: "listens_of (asdict ar) = artist.total_listens ar"
  by (simp add: listens_of_def asdict_def)

lemma sorted_reverse_sorted: "sorted_wrt (\<lambda>x y. f y \<le> f x) (sorted_reverse f xs)"
proof -
  have "sorted (map f (sort_key f (rev xs)))"
    by (rule sorted_sort_key)
  then have "sorted_wrt (\<lambda>x y. f x \<le> f y) (sort_key f (rev xs))"
    by (simp add: sorted_wrt_map)
  then show ?thesis
    by (simp add: sorted_reverse_def sorted_wrt_rev)
qed

lemma sorted_reverse_stable:
  "filter (\<lambda>x. f x = n) (sorted_reverse f xs) = filter (\<lambda>x. f x = n) xs"
proof -
  have "filter (\<lambda>x. f x = n) (sorted_reverse f xs)
      = rev (filter (\<lambda>x. f x = n) (sort_key f (rev xs)))"
    by (simp add: sorted_reverse_def rev_filter)
  also have "\<dots> = rev (filter (\<lambda>x. f x = n) (rev xs))"
    by (simp only: sort_key_stable)
  also have "\<dots> = filter (\<lambda>x. f x = n) xs"
    by (simp add: rev_filter)
  finally show ?thesis .
qed

text \<open>
  C5 (ordering). After any files have been ingested from the empty catalog, the
  artists of the output are in non-increasing order of \<open>total_listens\<close>; for every number
  of listens, the artists of the output with that number are the artists of the catalog
  with that number, in the order of the catalog; and the order of the catalog is the
  order in which the artists were first encountered in the records of the files.
\<close>

theorem ordering:
  assumes "load_files w self fps Parser_data printed = Inr (self', data, printed')"
  shows "sorted_wrt (\<lambda>x y. listens_of (snd y) \<le> listens_of (snd x)) (save_output data)
    \<and> (\<forall>n. map fst (filter (\<lambda>x. listens_of (snd x) = n) (save_output data))
            = map fst (filter (\<lambda>x. artist.total_listens (snd x) = n) data))
    \<and> map fst data = first_seen (artists_encountered (concat (map (file_logs w) fps)))"
proof -
  let ?f = "\<lambda>kvp. artist.total_listens (snd kvp)"
  have 1: "sorted_wrt (\<lambda>x y. listens_of (snd y) \<le> listens_of (snd x)) (save_output data)"
    using sorted_reverse_sorted [of ?f data]
    by (simp add: save_output_def sorted_wrt_map listens_of_asdict)
  have 2: "map fst (filter (\<lambda>x. listens_of (snd x) = n) (save_output data))
            = map fst (filter (\<lambda>x. artist.total_listens (snd x) = n) data)" for n
    using sorted_reverse_stable [of ?f n data]
    by (simp add: save_output_def filter_map o_def listens_of_asdict)
  have 3: "map fst data = first_seen (artists_encountered (concat (map (file_logs w) fps)))"
    using load_files_keys [OF assms] by (simp add: foldl_add_key Parser_data_def)
  from 1 2 3 show ?thesis by blast
qed

theorem ordering_witness:
  "load_files ties_world first_parser [a_json] Parser_data []
     = Inr (first_parser\<lparr>current := 2\<rparr>, ties_catalog, a_json_progress)
   \<and> map fst ties_catalog = [KStr ''B'', KStr ''A'', KStr ''C'']
   \<and> map fst (filter (\<lambda>x. listens_of (snd x) = 1) (save_output ties_catalog))
       = [KStr ''A'', KStr ''C'']
   \<and> map fst (save_output ties_catalog) = [KStr ''B'', KStr ''A'', KStr ''C'']
   \<and> sorted_wrt (\<lambda>x y. listens_of (snd y) \<le> listens_of (snd x)) (save_output ties_catalog)"
proof -
  have h: "load_files ties_world first_parser [a_json] Parser_data []
     = Inr (first_parser\<lparr>current := 2\<rparr>, ties_catalog, a_json_progress)"
    by code_simp
  have f: "map fst (filter (\<lambda>x. artist.total_listens (snd x) = 1) ties_catalog)
      = [KStr ''A'', KStr ''C'']"
    by (simp add: ties_catalog_def)
  have o: "map fst (save_output ties_catalog) = [KStr ''B'', KStr ''A'', KStr ''C'']"
    by code_simp
  have k: "map fst ties_catalog = [KStr ''B'', KStr ''A'', KStr ''C'']"
    by (simp add: ties_catalog_def)
  from ordering [OF h] h f o k show ?thesis
    by simp
qed

section \<open>The catalog of the class\<close>

lemma process_logs_shift:
  "process_logs d logs = Inr d'
   \<Longrightarrow> \<exists>d0'. process_logs d0 logs = Inr d0'
        \<and> (\<forall>a. artist_listens d0' a = artist_listens d0 a + (artist_listens d' a - artist_listens d a))
        \<and> (\<forall>a b. album_listens d0' a b
              = album_listens d0 a b + (album_listens d' a b - album_listens d a b))
        \<and> (\<forall>a b t. track_listens d0' a b t
              = track_listens d0 a b t + (track_listens d' a b t - track_listens d a b t))"
proof (induction logs arbitrary: d d0)
  case Nil
  then show ?case by simp
next
  case (Cons log rest)
  show ?case
  proof (cases "to_entry log")
    case (Inl e)
    with Cons.prems show ?thesis by simp
  next
    case (Inr r)
    show ?thesis
    proof (cases r)
      case None
      with Inr Cons.prems Cons.IH [of d d0] show ?thesis by simp
    next
      case (Some e)
      with Inr Cons.prems obtain d1 where d1: "add_entry d e = Inr d1"
        and rest: "process_logs d1 rest = Inr d'"
        by (auto split: sum.splits)
      from add_entry_Inr [OF d1] obtain a b t where k: "as_key (artist_name e) = Some a"
        "as_key (album_name e) = Some b" "as_key (track_name e) = Some t"
        by blast
      from add_entry_effect [OF k, of d] d1
      have e1: "\<And>a'. artist_listens d1 a' = artist_listens d a' + (if py_eq a a' then 1 else 0)"
        "\<And>a' b'. album_listens d1 a' b' =
           album_listens d a' b' + (if py_eq a a' \<and> py_eq b b' then 1 else 0)"
        "\<And>a' b' t'. track_listens d1 a' b' t' =
           track_listens d a' b' t'
             + (if py_eq a a' \<and> py_eq b b' \<and> py_eq t t' then 1 else 0)"
        by auto
      from add_entry_effect [OF k, of d0] obtain d01 where d01: "add_entry d0 e = Inr d01"
        and e0: "\<And>a'. artist_listens d01 a' = artist_listens d0 a' + (if py_eq a a' then 1 else 0)"
        "\<And>a' b'. album_listens d01 a' b' =
           album_listens d0 a' b' + (if py_eq a a' \<and> py_eq b b' then 1 else 0)"
        "\<And>a' b' t'. track_listens d01 a' b' t' =
           track_listens d0 a' b' t'
             + (if py_eq a a' \<and> py_eq b b' \<and> py_eq t t' then 1 else 0)"
        by auto
      from Cons.IH [OF rest, of d01] obtain d0' where r: "process_logs d01 rest = Inr d0'"
        and i: "\<And>a. artist_listens d0' a
              = artist_listens d01 a + (artist_listens d' a - artist_listens d1 a)"
         "\<And>a b. album_listens d0' a b
              = album_listens d01 a b + (album_listens d' a b - album_listens d1 a b)"
         "\<And>a b t. track_listens d0' a b t
              = track_listens d01 a b t + (track_listens d' a b t - track_listens d1 a b t)"
        by auto
      have "process_logs d0 (log # rest) = Inr d0'"
        using Inr Some d01 r by simp
      moreover have "artist_listens d0' x
          = artist_listens d0 x + (artist_listens d' x - artist_listens d x)" for x
        by (simp add: i e0 e1)
      moreover have "album_listens d0' x y
              = album_listens d0 x y + (album_listens d' x y - album_listens d x y)" for x y
        by (simp add: i e0 e1)
      moreover have "track_listens d0' x y z
              = track_listens d0 x y z + (track_listens d' x y z - track_listens d x y z)" for x y z
        by (simp add: i e0 e1)
      ultimately show ?thesis by blast
    qed
  qed
qed

lemma load_dataset_shift:
  assumes "load_dataset w self fp d = Inr (self', d', p)"
  shows "\<exists>d0' p0. load_dataset w self0 fp d0 = Inr (self0\<lparr>current := current self0 + 1\<rparr>, d0', p0)
        \<and> (\<forall>a. artist_listens d0' a = artist_listens d0 a + (artist_listens d' a - artist_listens d a))
        \<and> (\<forall>a b. album_listens d0' a b
              = album_listens d0 a b + (album_listens d' a b - album_listens d a b))
        \<and> (\<forall>a b t. track_listens d0' a b t
              = track_listens d0 a b t + (track_listens d' a b t - track_listens d a b t))"
proof -
  from assms obtain src j logs where r: "read_text w fp = Inr src" "json_loads src = Inr j"
    "py_list j = Inr logs" and l: "process_logs d logs = Inr d'"
    by (auto simp: load_dataset_def Let_def split: sum.splits)
  from process_logs_shift [OF l, of d0] obtain d0' where
    "process_logs d0 logs = Inr d0'"
    and s: "\<forall>a. artist_listens d0' a = artist_listens d0 a + (artist_listens d' a - artist_listens d a)"
      "\<forall>a b. album_listens d0' a b
              = album_listens d0 a b + (album_listens d' a b - album_listens d a b)"
      "\<forall>a b t. track_listens d0' a b t
              = track_listens d0 a b t + (track_listens d' a b t - track_listens d a b t)"
    by blast
  with r have "\<exists>p0. load_dataset w self0 fp d0
      = Inr (self0\<lparr>current := current self0 + 1\<rparr>, d0', p0)"
    by (simp add: load_dataset_def)
  with s show ?thesis by blast
qed

lemma load_files_shift:
  "load_files w self fps d printed = Inr (self', d', printed')
   \<Longrightarrow> \<exists>self0' d0' printed0'. load_files w self0 fps d0 printed0 = Inr (self0', d0', printed0')
        \<and> (\<forall>a. artist_listens d0' a = artist_listens d0 a + (artist_listens d' a - artist_listens d a))
        \<and> (\<forall>a b. album_listens d0' a b
              = album_listens d0 a b + (album_listens d' a b - album_listens d a b))
        \<and> (\<forall>a b t. track_listens d0' a b t
              = track_listens d0 a b t + (track_listens d' a b t - track_listens d a b t))"
proof (induction fps arbitrary: self d printed self0 d0 printed0)
  case Nil
  then show ?case by simp
next
  case (Cons fp fps)
  from Cons.prems obtain s1 d1 p1 where 1: "load_dataset w self fp d = Inr (s1, d1, p1)"
    and 2: "load_files w s1 fps d1 (printed @ p1) = Inr (self', d', printed')"
    by (auto split: sum.splits)
  from load_dataset_shift [OF 1, of self0 d0] obtain d01 p01 where
    3: "load_dataset w self0 fp d0 = Inr (self0\<lparr>current := current self0 + 1\<rparr>, d01, p01)"
    and e: "\<And>a. artist_listens d01 a = artist_listens d0 a + (artist_listens d1 a - artist_listens d a)"
      "\<And>a b. album_listens d01 a b
          = album_listens d0 a b + (album_listens d1 a b - album_listens d a b)"
      "\<And>a b t. track_listens d01 a b t
          = track_listens d0 a b t + (track_listens d1 a b t - track_listens d a b t)"
    by blast
  from Cons.IH [OF 2, of "self0\<lparr>current := current self0 + 1\<rparr>" d01 "printed0 @ p01"]
  obtain self0' d0' printed0' where
    4: "load_files w (self0\<lparr>current := current self0 + 1\<rparr>) fps d01 (printed0 @ p01)
        = Inr (self0', d0', printed0')"
    and i: "\<And>a. artist_listens d0' a = artist_listens d01 a + (artist_listens d' a - artist_listens d1 a)"
      "\<And>a b. album_listens d0' a b
          = album_listens d01 a b + (album_listens d' a b - album_listens d1 a b)"
      "\<And>a b t. track_listens d0' a b t
          = track_listens d01 a b t + (track_listens d' a b t - track_listens d1 a b t)"
    by blast
  have "load_files w self0 (fp # fps) d0 printed0 = Inr (self0', d0', printed0')"
    using 3 4 by simp
  moreover have "artist_listens d0' x
      = artist_listens d0 x + (artist_listens d' x - artist_listens d x)" for x
    by (simp add: i e)
  moreover have "album_listens d0' x y
      = album_listens d0 x y + (album_listens d' x y - album_listens d x y)" for x y
    by (simp add: i e)
  moreover have "track_listens d0' x y z
      = track_listens d0 x y z + (track_listens d' x y z - track_listens d x y z)" for x y z
    by (simp add: i e)
  ultimately show ?case by blast
qed

lemma listens_Parser_data:
  "artist_listens Parser_data a = 0" "album_listens Parser_data a b = 0"
  "track_listens Parser_data a b t = 0"
  by (simp_all add: artist_listens_def album_listens_def track_listens_def Parser_data_def
      dict_get_def Artist_def Album_def)

text \<open>
  C10 (the catalog is shared). \<open>data\<close> belongs to the class, so it outlives the
  instance: when \<open>main\<close> has run once in a process and runs again in the same process, on
  the same files, the second instance starts from the catalog the first one left, and
  every artist, album and track counter ends at twice its value after the first run,
  which is also what the second run writes.
\<close>

theorem shared_catalog:
  assumes "main w Parser_data = (Inr (0, printed, d1), w1)"
  shows "\<exists>printed2 d2 w2. main w1 d1 = (Inr (0, printed2, d2), w2)
     \<and> (\<forall>a. artist_listens d2 a = 2 * artist_listens d1 a)
     \<and> (\<forall>a b. album_listens d2 a b = 2 * album_listens d1 a b)
     \<and> (\<forall>a b t. track_listens d2 a b t = 2 * track_listens d1 a b t)
     \<and> out_data_json w2 = Some (dumps (PyDict (save_output d2)))"
proof -
  from assms obtain self self' p where d: "data_dir w \<noteq> None"
    and init: "Parser_init w = Inr self"
    and l: "load_files w self (files_to_parse self) Parser_data [] = Inr (self', d1, p)"
    and w1: "w1 = w\<lparr>out_exists := True, out_data_json := Some (dumps (PyDict (save_output d1)))\<rparr>"
    by (auto simp: main_def save_def split: if_splits sum.splits prod.splits)
  from load_files_shift [OF l, of self d1 "[]"] obtain self2 d2 p2 where
    l2: "load_files w self (files_to_parse self) d1 [] = Inr (self2, d2, p2)"
    and e: "\<And>a. artist_listens d2 a = 2 * artist_listens d1 a"
      "\<And>a b. album_listens d2 a b = 2 * album_listens d1 a b"
      "\<And>a b t. track_listens d2 a b t = 2 * track_listens d1 a b t"
    by (auto simp: listens_Parser_data)
  from d init l2 have "main w1 d1 =
      (Inr (0, p2 @ [CHR 0x0A] @ ''Data written to '' @ absolute w ''out/data.json'' @ [CHR 0x0A], d2),
       w\<lparr>out_exists := True, out_data_json := Some (dumps (PyDict (save_output d2)))\<rparr>)"
    by (simp add: w1 main_def save_def)
  with e show ?thesis
    by simp
qed

theorem shared_catalog_witness:
  "main scenario_world Parser_data
     = (Inr (0, a_json_progress @ [CHR 0x0A] @ ''Data written to /home/u/out/data.json''
                  @ [CHR 0x0A], scenario_catalog),
        scenario_world\<lparr>out_exists := True, out_data_json := Some scenario_text\<rparr>)
   \<and> track_listens scenario_catalog (KStr ''A'') (KStr ''X'') (KStr ''T1'') = 2
   \<and> (\<exists>printed2 d2 w2.
         main (scenario_world\<lparr>out_exists := True, out_data_json := Some scenario_text\<rparr>)
           scenario_catalog = (Inr (0, printed2, d2), w2)
         \<and> artist_listens d2 (KStr ''A'') = 6
         \<and> track_listens d2 (KStr ''A'') (KStr ''X'') (KStr ''T1'') = 4)"
proof -
  have h: "main scenario_world Parser_data
     = (Inr (0, a_json_progress @ [CHR 0x0A] @ ''Data written to /home/u/out/data.json''
                  @ [CHR 0x0A], scenario_catalog),
        scenario_world\<lparr>out_exists := True, out_data_json := Some scenario_text\<rparr>)"
    by code_simp
  have v: "track_listens scenario_catalog (KStr ''A'') (KStr ''X'') (KStr ''T1'') = 2"
    "artist_listens scenario_catalog (KStr ''A'') = 3"
    by code_simp+
  from shared_catalog [OF h] obtain printed2 d2 w2 where
    m: "main (scenario_world\<lparr>out_exists := True, out_data_json := Some scenario_text\<rparr>)
           scenario_catalog = (Inr (0, printed2, d2), w2)"
    and a: "\<forall>a. artist_listens d2 a = 2 * artist_listens scenario_catalog a"
    and t: "\<forall>a b t. track_listens d2 a b t = 2 * track_listens scenario_catalog a b t"
    by blast
  from a v have "artist_listens d2 (KStr ''A'') = 6"
    by simp
  moreover from t v have "track_listens d2 (KStr ''A'') (KStr ''X'') (KStr ''T1'') = 4"
    by simp
  ultimately show ?thesis
    using h v m by blast
qed

section \<open>Exit status\<close>

lemma load_files_current:
  "load_files w self fps data printed = Inr (self', data', printed')
   \<Longrightarrow> current self' = current self + int (length fps)"
proof (induction fps arbitrary: self data printed)
  case Nil
  then show ?case by simp
next
  case (Cons fp fps)
  from Cons.prems obtain s d p where 1: "load_dataset w self fp data = Inr (s, d, p)"
    and 2: "load_files w s fps d (printed @ p) = Inr (self', data', printed')"
    by (auto split: sum.splits)
  from 1 have "current s = current self + 1"
    by (auto simp: load_dataset_def Let_def split: sum.splits)
  with Cons.IH [OF 2] show ?case by simp
qed

lemma load_files_each:
  "\<forall>fp \<in> set fps. \<exists>r. load_dataset w self0 fp d = Inr r
   \<Longrightarrow> \<exists>self' data' printed'. load_files w self fps data printed = Inr (self', data', printed')"
proof (induction fps arbitrary: self data printed)
  case Nil
  then show ?case by simp
next
  case (Cons fp fps)
  from Cons.prems obtain s1 d1 p1 where "load_dataset w self0 fp d = Inr (s1, d1, p1)"
    by fastforce
  from load_dataset_shift [OF this, of self data] obtain d' p where
    1: "load_dataset w self fp data = Inr (self\<lparr>current := current self + 1\<rparr>, d', p)"
    by blast
  from Cons.prems have "\<forall>fp \<in> set fps. \<exists>r. load_dataset w self0 fp d = Inr r"
    by simp
  from Cons.IH [OF this, of "self\<lparr>current := current self + 1\<rparr>" d' "printed @ p"] 1
  show ?case by simp
qed

text \<open>
  C8 (missing input directory), as the code has it. When there is no directory
  \<open>data\<close>, \<open>main\<close> prints the error message, returns 1 and writes nothing. When the
  directory exists and every file in it can be ingested without an exception (as every
  valid file can), every file is ingested (the counter of the instance ends at the number
  of files plus one), the output is written and the exit status is 0.
\<close>

theorem exit_status:
  "(data_dir w = None \<longrightarrow>
      main w data = (Inr (1, ''ERROR: Missing input directory '' @ [CHR 0x22] @ ''./data''
                         @ [CHR 0x22, CHR 0x0A], data), w)
      \<and> script w = (1, w))
   \<and> (\<forall>self. Parser_init w = Inr self
          \<and> (\<forall>fp \<in> set (files_to_parse self). \<exists>r. load_dataset w self fp Parser_data = Inr r) \<longrightarrow>
        (\<exists>self' data' printed.
           load_files w self (files_to_parse self) data [] = Inr (self', data', printed)
           \<and> current self' = 1 + int (length (files_to_parse self))
           \<and> main w data =
               (Inr (0, printed @ [CHR 0x0A] @ ''Data written to ''
                        @ absolute w ''out/data.json'' @ [CHR 0x0A], data'),
                w\<lparr>out_exists := True,
                  out_data_json := Some (dumps (PyDict (save_output data')))\<rparr>)
           \<and> fst (script w) = 0))
   \<and> (\<forall>self fp. valid_file w fp \<longrightarrow> (\<exists>r. load_dataset w self fp Parser_data = Inr r))"
proof (intro conjI impI allI)
  assume "data_dir w = None"
  then show "main w data = (Inr (1, ''ERROR: Missing input directory '' @ [CHR 0x22] @ ''./data''
                         @ [CHR 0x22, CHR 0x0A], data), w)"
    by (simp add: main_def)
next
  assume "data_dir w = None"
  then show "script w = (1, w)"
    by (simp add: script_def main_def)
next
  fix self fp
  assume "valid_file w fp"
  from load_dataset_valid [OF this, of self Parser_data]
  show "\<exists>r. load_dataset w self fp Parser_data = Inr r"
    by blast
next
  fix self
  assume a: "Parser_init w = Inr self
    \<and> (\<forall>fp \<in> set (files_to_parse self). \<exists>r. load_dataset w self fp Parser_data = Inr r)"
  then have d: "data_dir w \<noteq> None" and c: "current self = 1"
    by (auto simp: Parser_init_def split: option.splits)
  have ok: "\<exists>self' data' printed.
      load_files w self (files_to_parse self) data0 [] = Inr (self', data', printed)
      \<and> current self' = 1 + int (length (files_to_parse self))
      \<and> main w data0 =
               (Inr (0, printed @ [CHR 0x0A] @ ''Data written to ''
                        @ absolute w ''out/data.json'' @ [CHR 0x0A], data'),
                w\<lparr>out_exists := True,
                  out_data_json := Some (dumps (PyDict (save_output data')))\<rparr>)" for data0
  proof -
    from a load_files_each [of "files_to_parse self" w self Parser_data self data0 "[]"]
    obtain self' data' printed where
      l: "load_files w self (files_to_parse self) data0 [] = Inr (self', data', printed)"
      by blast
    from load_files_current [OF l] c
    have "current self' = 1 + int (length (files_to_parse self))" by simp
    moreover from a d l have "main w data0 =
               (Inr (0, printed @ [CHR 0x0A] @ ''Data written to ''
                        @ absolute w ''out/data.json'' @ [CHR 0x0A], data'),
                w\<lparr>out_exists := True,
                  out_data_json := Some (dumps (PyDict (save_output data')))\<rparr>)"
      by (simp add: main_def save_def)
    ultimately show ?thesis using l by blast
  qed
  from ok [of Parser_data] have "fst (script w) = 0"
    by (auto simp: script_def)
  with ok [of data]
  show "\<exists>self' data' printed.
           load_files w self (files_to_parse self) data [] = Inr (self', data', printed)
           \<and> current self' = 1 + int (length (files_to_parse self))
           \<and> main w data =
               (Inr (0, printed @ [CHR 0x0A] @ ''Data written to ''
                        @ absolute w ''out/data.json'' @ [CHR 0x0A], data'),
                w\<lparr>out_exists := True,
                  out_data_json := Some (dumps (PyDict (save_output data')))\<rparr>)
           \<and> fst (script w) = 0"
    by blast
qed

theorem exit_status_witness:
  "data_dir (directory None) = None
   \<and> main (directory None) Parser_data
       = (Inr (1, ''ERROR: Missing input directory '' @ [CHR 0x22] @ ''./data''
                    @ [CHR 0x22, CHR 0x0A], Parser_data), directory None)
   \<and> script (directory None) = (1, directory None)
   \<and> Parser_init scenario_world = Inr first_parser
   \<and> valid_file scenario_world a_json
   \<and> load_dataset scenario_world first_parser a_json Parser_data
       = Inr (first_parser\<lparr>current := 2\<rparr>, scenario_catalog, a_json_progress)
   \<and> fst (script scenario_world) = 0"
proof -
  have 1: "data_dir (directory None) = None"
    by (simp add: directory_def)
  have 2: "Parser_init scenario_world = Inr first_parser"
    by code_simp
  have 3: "valid_file scenario_world a_json"
    by code_simp
  have 4: "load_dataset scenario_world first_parser a_json Parser_data
       = Inr (first_parser\<lparr>current := 2\<rparr>, scenario_catalog, a_json_progress)"
    by code_simp
  then have 5: "\<forall>fp \<in> set (files_to_parse first_parser).
      \<exists>r. load_dataset scenario_world first_parser fp Parser_data = Inr r"
    by (simp add: first_parser_def)
  from exit_status [of "directory None" Parser_data] 1
  have a: "main (directory None) Parser_data
       = (Inr (1, ''ERROR: Missing input directory '' @ [CHR 0x22] @ ''./data''
                    @ [CHR 0x22, CHR 0x0A], Parser_data), directory None)
     \<and> script (directory None) = (1, directory None)"
    by blast
  from exit_status [of scenario_world Parser_data] 2 5
  have b: "fst (script scenario_world) = 0"
    by blast
  from 1 2 3 4 a b show ?thesis
    by blast
qed

theorem exit_status_counterexample:
  "data_dir not_json_world = Some [(''a.json'', File NotJSON)]
   \<and> main not_json_world Parser_data = (Inl JSONDecodeError, not_json_world)
   \<and> script not_json_world = (1, not_json_world)
   \<and> fst (script not_json_world) \<noteq> 0"
  by code_simp

end
